theory Spec2Isabelle
  imports
    Main
    "HOL-Library.Char_ord"
    "HOL-Library.List_Lexorder"
    "HOL-Library.Multiset"
    "HOL-Library.Monad_Syntax"
begin

section \<open>The vehicle-listing service: data model\<close>

text \<open>
  The router keeps the whole catalog in one JSON document \<^verbatim>\<open>{ cars: [...], nextId: n }\<close>.
  A JavaScript number is a double. The numbers of this service are integers, and a finite
  one is modelled by the \<^typ>\<open>int\<close> it equals; \<open>isDouble\<close> below says which integers
  are doubles, and every result of arithmetic or of reading digits is rounded to the
  nearest of them. The numbers of a catalog are those of a parsed document, so they are
  doubles. Fractions are not represented. Strings are \<^typ>\<open>string\<close>, read as
  ASCII text, compared by character code as JavaScript compares code units.

  A stored listing has the fields that the POST handler writes. \<^verbatim>\<open>year\<close> and
  \<^verbatim>\<open>price\<close> are the results of \<^verbatim>\<open>parseInt\<close> as JSON holds them: an integer, or
  \<open>None\<close> for the \<^verbatim>\<open>null\<close> that \<^verbatim>\<open>JSON.stringify\<close> writes for \<^verbatim>\<open>NaN\<close> and for an
  infinity, and that a later read gives back. The fields \<^verbatim>\<open>id\<close> and \<^verbatim>\<open>make\<close> are called \<open>car_id\<close> and
  \<open>car_make\<close> here (the plain names are taken in HOL).
\<close>

record car =
  car_id :: int
  car_make :: string
  model :: string
  year :: "int option"
  price :: "int option"
  location :: string
  condition :: string
  image :: string
  createdAt :: string

record catalog =
  cars :: "car list"
  nextId :: int

text \<open>
  What a handler sends when it does not answer with a success status:
  the HTTP status and the text of the \<^verbatim>\<open>error\<close> property of the JSON body.
\<close>

datatype http_error = HttpError nat string

text \<open>
  A JSON value, as a request body or the data file holds it. \<open>JNum n\<close> is the integer
  \<open>n\<close> as the text writes it; the number it is read as is \<open>toDouble n\<close>.
\<close>

datatype jsval =
  JNull | JBool bool | JNum int | JStr string | JArr "jsval list" | JObj "(string \<times> jsval) list"

section \<open>Numbers\<close>

datatype number = NaN | Finite int | PosInfinity | NegInfinity

fun bitLength :: "nat \<Rightarrow> nat" where
  "bitLength n = (if n = 0 then 0 else Suc (bitLength (n div 2)))"

declare bitLength.simps [simp del]

definition roundNat :: "nat \<Rightarrow> nat" where
  \<comment> \<open>The double nearest to a natural number, ties to the even significand. Up to
      \<open>2^53\<close> every natural number is a double; above, a double has 53 significant bits.\<close>
  "roundNat a =
     (if a \<le> 2 ^ 53 then a
      else
        let e = bitLength a - 53;
            q = a div 2 ^ e;
            r = a mod 2 ^ e;
            half = 2 ^ (e - 1)
        in if r < half \<or> (r = half \<and> even q) then q * 2 ^ e else (q + 1) * 2 ^ e)"

definition toDouble :: "int \<Rightarrow> number" where
  \<comment> \<open>The Number value for an integer: the nearest double, an infinity from \<open>2^1024\<close>.\<close>
  "toDouble i =
     (let m = roundNat (nat \<bar>i\<bar>)
      in if m \<ge> 2 ^ 1024 then (if i < 0 then NegInfinity else PosInfinity)
         else Finite (if i < 0 then - int m else int m))"

definition isDouble :: "int \<Rightarrow> bool" where
  "isDouble i = (toDouble i = Finite i)"

definition jsonNumber :: "number \<Rightarrow> int option" where
  \<comment> \<open>What \<^verbatim>\<open>JSON.stringify\<close> writes for a number and \<^verbatim>\<open>JSON.parse\<close> reads back.\<close>
  "jsonNumber x = (case x of Finite n \<Rightarrow> Some n | _ \<Rightarrow> None)"

definition increment :: "int \<Rightarrow> int" where
  \<comment> \<open>\<^verbatim>\<open>n++\<close> on a double: the sum is rounded. Adding 1 to a finite double never gives
      an infinity.\<close>
  "increment n = (case toDouble (n + 1) of Finite m \<Rightarrow> m | _ \<Rightarrow> n)"

section \<open>Strings and \<^verbatim>\<open>parseInt\<close>\<close>

definition isWhiteSpace :: "char \<Rightarrow> bool" where
  \<comment> \<open>The ASCII members of ECMAScript's WhiteSpace and LineTerminator: TAB, LF, VT, FF, CR, SP.\<close>
  "isWhiteSpace c =
     (c = CHR 0x09 \<or> c = CHR 0x0A \<or> c = CHR 0x0B \<or> c = CHR 0x0C \<or> c = CHR 0x0D \<or> c = CHR 0x20)"

definition trim :: "string \<Rightarrow> string" where
  "trim s = rev (dropWhile isWhiteSpace (rev (dropWhile isWhiteSpace s)))"

definition digitValue :: "char \<Rightarrow> nat option" where
  "digitValue c = map_of
     [(CHR ''0'', 0), (CHR ''1'', 1), (CHR ''2'', 2), (CHR ''3'', 3), (CHR ''4'', 4),
      (CHR ''5'', 5), (CHR ''6'', 6), (CHR ''7'', 7), (CHR ''8'', 8), (CHR ''9'', 9),
      (CHR ''a'', 10), (CHR ''b'', 11), (CHR ''c'', 12), (CHR ''d'', 13), (CHR ''e'', 14),
      (CHR ''f'', 15),
      (CHR ''A'', 10), (CHR ''B'', 11), (CHR ''C'', 12), (CHR ''D'', 13), (CHR ''E'', 14),
      (CHR ''F'', 15)] c"

definition isRadixDigit :: "nat \<Rightarrow> char \<Rightarrow> bool" where
  "isRadixDigit R c = (case digitValue c of None \<Rightarrow> False | Some d \<Rightarrow> d < R)"

definition mathInt :: "nat \<Rightarrow> string \<Rightarrow> nat" where
  "mathInt R Z = foldl (\<lambda>acc c. acc * R + (case digitValue c of None \<Rightarrow> 0 | Some d \<Rightarrow> d)) 0 Z"

fun stripSign :: "string \<Rightarrow> bool \<times> string" where
  "stripSign [] = (False, [])"
| "stripSign (c # cs) =
     (if c = CHR ''-'' then (True, cs)
      else if c = CHR ''+'' then (False, cs)
      else (False, c # cs))"

fun stripPrefix :: "string \<Rightarrow> nat \<times> string" where
  "stripPrefix (a # b # cs) =
     (if a = CHR ''0'' \<and> (b = CHR ''x'' \<or> b = CHR ''X'') then (16, cs) else (10, a # b # cs))"
| "stripPrefix cs = (10, cs)"

definition parseInt :: "string \<Rightarrow> number" where
  \<comment> \<open>\<^verbatim>\<open>parseInt(string)\<close> with no radix argument: leading white space is skipped, a sign
      is read, a \<^verbatim>\<open>0x\<close> prefix selects radix 16, the longest run of digits is the value,
      rounded to a double, and an empty run gives \<^verbatim>\<open>NaN\<close>.\<close>
  "parseInt inputString =
     (let S = dropWhile isWhiteSpace inputString;
          (neg, S1) = stripSign S;
          (R, S2) = stripPrefix S1;
          Z = takeWhile (isRadixDigit R) S2
      in if Z = [] then NaN
         else toDouble ((if neg then - 1 else 1) * int (mathInt R Z)))"

definition toLowerChar :: "char \<Rightarrow> char" where
  "toLowerChar c =
     (case map_of (zip ''ABCDEFGHIJKLMNOPQRSTUVWXYZ'' ''abcdefghijklmnopqrstuvwxyz'') c of
        None \<Rightarrow> c
      | Some l \<Rightarrow> l)"

definition toLowerCase :: "string \<Rightarrow> string" where
  "toLowerCase s = map toLowerChar s"

fun startsWith :: "string \<Rightarrow> string \<Rightarrow> bool" where
  "startsWith s [] = True"
| "startsWith [] (d # ds) = False"
| "startsWith (c # cs) (d # ds) = (c = d \<and> startsWith cs ds)"

fun js_includes :: "string \<Rightarrow> string \<Rightarrow> bool" where
  \<comment> \<open>\<^verbatim>\<open>s.includes(t)\<close>: \<open>t\<close> occurs in \<open>s\<close> at some position.\<close>
  "js_includes [] t = (t = [])"
| "js_includes (c # cs) t = (startsWith (c # cs) t \<or> js_includes cs t)"

definition digitChar :: "nat \<Rightarrow> char" where
  "digitChar d =
     (if d = 0 then CHR ''0'' else if d = 1 then CHR ''1'' else if d = 2 then CHR ''2''
      else if d = 3 then CHR ''3'' else if d = 4 then CHR ''4'' else if d = 5 then CHR ''5''
      else if d = 6 then CHR ''6'' else if d = 7 then CHR ''7'' else if d = 8 then CHR ''8''
      else CHR ''9'')"

fun natToString :: "nat \<Rightarrow> string" where
  "natToString n =
     (if n < 10 then [digitChar n] else natToString (n div 10) @ [digitChar (n mod 10)])"

declare natToString.simps [simp del]

definition decimalText :: "int \<Rightarrow> string" where
  \<comment> \<open>An integer written out in decimal digits, \<^verbatim>\<open>-\<close> in front of a negative one.\<close>
  "decimalText n =
     (if n < 0 then CHR ''-'' # natToString (nat (- n)) else natToString (nat n))"

text \<open>
  \<^verbatim>\<open>String(x)\<close> writes the shortest decimal that still rounds to \<open>x\<close>: the fewest
  significant digits, and of two such decimals the one nearer to \<open>x\<close> (the even one when
  they are equally near). \<open>shortestFrom x j\<close> looks for it among the multiples of
  \<open>10^j\<close> next to \<open>x\<close>, for \<open>j\<close> going down. Below \<open>10^21\<close> the decimal is written
  out in full, from there on with an exponent.
\<close>

primrec shortestFrom :: "nat \<Rightarrow> nat \<Rightarrow> nat" where
  "shortestFrom x 0 = x"
| "shortestFrom x (Suc j) =
     (let p = 10 ^ Suc j;
          lo = (x div p) * p;
          hi = lo + p
      in if lo \<noteq> 0 \<and> roundNat lo = x then
           (if roundNat hi = x \<and> (hi - x < x - lo \<or> (hi - x = x - lo \<and> odd (x div p)))
            then hi else lo)
         else if roundNat hi = x then hi
         else shortestFrom x j)"

definition shortestDecimal :: "nat \<Rightarrow> nat" where
  "shortestDecimal x = shortestFrom x (length (natToString x) - 1)"

definition exponentForm :: "nat \<Rightarrow> string" where
  \<comment> \<open>The first digit, the further digits up to the last that is not 0 behind a point,
      and the exponent.\<close>
  "exponentForm v =
     (let digits = natToString v;
          s = rev (dropWhile (\<lambda>c. c = CHR ''0'') (rev digits))
      in case s of
           [] \<Rightarrow> []
         | d # ds \<Rightarrow>
             d # (if ds = [] then [] else CHR ''.'' # ds) @ ''e+'' @ natToString (length digits - 1))"

definition positiveToString :: "nat \<Rightarrow> string" where
  "positiveToString x =
     (let v = shortestDecimal x in if v < 10 ^ 21 then natToString v else exponentForm v)"

definition numberToString :: "number \<Rightarrow> string" where
  \<comment> \<open>\<^verbatim>\<open>String(x)\<close>.\<close>
  "numberToString x =
     (case x of
        NaN \<Rightarrow> ''NaN''
      | PosInfinity \<Rightarrow> ''Infinity''
      | NegInfinity \<Rightarrow> ''-Infinity''
      | Finite i \<Rightarrow>
          if i < 0 then CHR ''-'' # positiveToString (nat (- i)) else positiveToString (nat i))"

definition isDecimal :: "char \<Rightarrow> bool" where
  \<comment> \<open>The characters that \<open>natToString\<close> writes.\<close>
  "isDecimal c = (c \<in> set ''0123456789'')"

section \<open>\<^verbatim>\<open>GET /api/cars/:id\<close>\<close>

definition getById :: "catalog \<Rightarrow> string \<Rightarrow> http_error + car" where
  \<comment> \<open>\<open>data\<close> is the catalog that \<^verbatim>\<open>readData()\<close> returned, \<open>idParam\<close> is \<^verbatim>\<open>req.params.id\<close>.
      \<^verbatim>\<open>===\<close> never holds against \<^verbatim>\<open>NaN\<close>.\<close>
  "getById data idParam =
     (case find (\<lambda>c. parseInt idParam = Finite (car_id c)) (cars data) of
        None \<Rightarrow> Inl (HttpError 404 ''Car not found'')
      | Some c \<Rightarrow> Inr c)"

section \<open>\<^verbatim>\<open>GET /api/cars\<close>: filtering and sorting\<close>

text \<open>
  The query parameters the handler destructures from \<^verbatim>\<open>req.query\<close>, each a string when the
  URL carries it and \<open>None\<close> (\<^verbatim>\<open>undefined\<close>) when it does not. A parameter that the URL
  repeats or writes with brackets, which arrives as an array or an object, is not
  represented. Their names carry the prefix \<open>q_\<close>.
\<close>

record query =
  q_search :: "string option"
  q_make :: "string option"
  q_model :: "string option"
  q_minPrice :: "string option"
  q_maxPrice :: "string option"
  q_minYear :: "string option"
  q_maxYear :: "string option"
  q_location :: "string option"
  q_condition :: "string option"
  q_sortBy :: "string option"
  q_sortOrder :: "string option"

definition whenGiven :: "string option \<Rightarrow> (string \<Rightarrow> car \<Rightarrow> bool) \<Rightarrow> car list \<Rightarrow> car list" where
  \<comment> \<open>\<^verbatim>\<open>if (p) { cars = cars.filter((car) => keep) }\<close>: an absent parameter and the empty
      string are falsy and leave the list as it is.\<close>
  "whenGiven p keep cs =
     (case p of
        None \<Rightarrow> cs
      | Some s \<Rightarrow> if s = [] then cs else filter (keep s) cs)"

definition toNumber :: "int option \<Rightarrow> int" where
  \<comment> \<open>The number a stored \<^verbatim>\<open>year\<close> or \<^verbatim>\<open>price\<close> is compared as: \<^verbatim>\<open>null\<close> counts as 0.\<close>
  "toNumber v = (case v of None \<Rightarrow> 0 | Some n \<Rightarrow> n)"

definition atLeastBound :: "int option \<Rightarrow> number \<Rightarrow> bool" where
  \<comment> \<open>\<^verbatim>\<open>v >= bound\<close>, false whenever the bound is \<^verbatim>\<open>NaN\<close>.\<close>
  "atLeastBound v bound =
     (case bound of
        NaN \<Rightarrow> False
      | Finite n \<Rightarrow> toNumber v \<ge> n
      | PosInfinity \<Rightarrow> False
      | NegInfinity \<Rightarrow> True)"

definition atMostBound :: "int option \<Rightarrow> number \<Rightarrow> bool" where
  \<comment> \<open>\<^verbatim>\<open>v <= bound\<close>, false whenever the bound is \<^verbatim>\<open>NaN\<close>.\<close>
  "atMostBound v bound =
     (case bound of
        NaN \<Rightarrow> False
      | Finite n \<Rightarrow> toNumber v \<le> n
      | PosInfinity \<Rightarrow> True
      | NegInfinity \<Rightarrow> False)"

definition searchStep :: "query \<Rightarrow> car list \<Rightarrow> car list" where
  "searchStep q = whenGiven (q_search q) (\<lambda>search car.
     let searchTerm = toLowerCase search
     in js_includes (toLowerCase (car_make car)) searchTerm \<or>
        js_includes (toLowerCase (model car)) searchTerm \<or>
        js_includes (toLowerCase (location car)) searchTerm)"

definition makeStep :: "query \<Rightarrow> car list \<Rightarrow> car list" where
  "makeStep q = whenGiven (q_make q) (\<lambda>make car.
     toLowerCase (car_make car) = toLowerCase make)"

definition modelStep :: "query \<Rightarrow> car list \<Rightarrow> car list" where
  "modelStep q = whenGiven (q_model q) (\<lambda>model' car.
     toLowerCase (model car) = toLowerCase model')"

definition minPriceStep :: "query \<Rightarrow> car list \<Rightarrow> car list" where
  "minPriceStep q = whenGiven (q_minPrice q) (\<lambda>minPrice car.
     atLeastBound (price car) (parseInt minPrice))"

definition maxPriceStep :: "query \<Rightarrow> car list \<Rightarrow> car list" where
  "maxPriceStep q = whenGiven (q_maxPrice q) (\<lambda>maxPrice car.
     atMostBound (price car) (parseInt maxPrice))"

definition minYearStep :: "query \<Rightarrow> car list \<Rightarrow> car list" where
  "minYearStep q = whenGiven (q_minYear q) (\<lambda>minYear car.
     atLeastBound (year car) (parseInt minYear))"

definition maxYearStep :: "query \<Rightarrow> car list \<Rightarrow> car list" where
  "maxYearStep q = whenGiven (q_maxYear q) (\<lambda>maxYear car.
     atMostBound (year car) (parseInt maxYear))"

definition locationStep :: "query \<Rightarrow> car list \<Rightarrow> car list" where
  "locationStep q = whenGiven (q_location q) (\<lambda>location' car.
     js_includes (toLowerCase (location car)) (toLowerCase location'))"

definition conditionStep :: "query \<Rightarrow> car list \<Rightarrow> car list" where
  "conditionStep q = whenGiven (q_condition q) (\<lambda>condition' car.
     toLowerCase (condition car) = toLowerCase condition')"

text \<open>
  The comparator. \<open>greaterBy sortBy a b\<close> is \<^verbatim>\<open>aValue > bValue\<close> for
  \<^verbatim>\<open>aValue = a[sortBy]\<close>, \<^verbatim>\<open>bValue = b[sortBy]\<close>, after the \<^verbatim>\<open>parseInt\<close> that the
  handler applies for \<^verbatim>\<open>price\<close>, \<^verbatim>\<open>year\<close> and \<^verbatim>\<open>mileage\<close>. A listing has no
  \<^verbatim>\<open>mileage\<close>, so both sides are \<^verbatim>\<open>NaN\<close> there; for a name that is no field of a listing
  both sides are \<^verbatim>\<open>undefined\<close> (or the same inherited object); in both cases the
  comparison is false. \<^verbatim>\<open>aValue < bValue\<close> is the same comparison with the sides
  exchanged.
\<close>

definition parseIntStored :: "int option \<Rightarrow> number" where
  \<comment> \<open>\<^verbatim>\<open>parseInt(v)\<close> for a stored number or \<^verbatim>\<open>null\<close>: the argument is first turned
      into a string, and \<^verbatim>\<open>"null"\<close> has no digits.\<close>
  "parseIntStored v =
     (case v of None \<Rightarrow> NaN | Some n \<Rightarrow> parseInt (numberToString (Finite n)))"

fun greaterNum :: "number \<Rightarrow> number \<Rightarrow> bool" where
  \<comment> \<open>\<^verbatim>\<open>>\<close> on two numbers.\<close>
  "greaterNum (Finite m) (Finite n) = (m > n)"
| "greaterNum (Finite m) NegInfinity = True"
| "greaterNum PosInfinity (Finite n) = True"
| "greaterNum PosInfinity NegInfinity = True"
| "greaterNum x y = False"

definition greaterBy :: "string \<Rightarrow> car \<Rightarrow> car \<Rightarrow> bool" where
  "greaterBy sortBy a b =
     (if sortBy = ''price'' then greaterNum (parseIntStored (price a)) (parseIntStored (price b))
      else if sortBy = ''year'' then greaterNum (parseIntStored (year a)) (parseIntStored (year b))
      else if sortBy = ''id'' then car_id a > car_id b
      else if sortBy = ''make'' then car_make a > car_make b
      else if sortBy = ''model'' then model a > model b
      else if sortBy = ''location'' then location a > location b
      else if sortBy = ''condition'' then condition a > condition b
      else if sortBy = ''image'' then image a > image b
      else if sortBy = ''createdAt'' then createdAt a > createdAt b
      else False)"

definition compareCars :: "string \<Rightarrow> string \<Rightarrow> car \<Rightarrow> car \<Rightarrow> int" where
  "compareCars sortBy sortOrder a b =
     (if sortOrder = ''asc''
      then (if greaterBy sortBy a b then 1 else - 1)
      else (if greaterBy sortBy b a then 1 else - 1))"

text \<open>
  \<^verbatim>\<open>Array.prototype.sort(comparefn)\<close>, modelled as a sort by insertion: an element goes
  behind every element that the comparator places before it. When the comparator orders
  the elements consistently, ECMAScript fixes the result and every engine returns this
  sequence. This comparator never returns 0, so on equal keys (and on \<^verbatim>\<open>NaN\<close>) it is not
  consistent and the order among such elements is left to the engine.
\<close>

fun insertBy :: "('a \<Rightarrow> 'a \<Rightarrow> int) \<Rightarrow> 'a \<Rightarrow> 'a list \<Rightarrow> 'a list" where
  "insertBy comparefn x [] = [x]"
| "insertBy comparefn x (y # ys) =
     (if comparefn x y > 0 then y # insertBy comparefn x ys else x # y # ys)"

fun arraySort :: "('a \<Rightarrow> 'a \<Rightarrow> int) \<Rightarrow> 'a list \<Rightarrow> 'a list" where
  "arraySort comparefn [] = []"
| "arraySort comparefn (x # xs) = insertBy comparefn x (arraySort comparefn xs)"

definition sortCars :: "query \<Rightarrow> car list \<Rightarrow> car list" where
  \<comment> \<open>\<^verbatim>\<open>cars.sort((a, b) => ...)\<close> with the defaults of the two sort parameters.\<close>
  "sortCars q cs =
     (let sortBy = (case q_sortBy q of None \<Rightarrow> ''createdAt'' | Some s \<Rightarrow> s);
          sortOrder = (case q_sortOrder q of None \<Rightarrow> ''desc'' | Some s \<Rightarrow> s)
      in arraySort (compareCars sortBy sortOrder) cs)"

definition listAll :: "catalog \<Rightarrow> query \<Rightarrow> car list" where
  \<comment> \<open>The body of the 200 response; \<open>data\<close> is the catalog that \<^verbatim>\<open>readData()\<close> returned.\<close>
  "listAll data q =
     (let cars0 = cars data;
          cars1 = searchStep q cars0;
          cars2 = makeStep q cars1;
          cars3 = modelStep q cars2;
          cars4 = minPriceStep q cars3;
          cars5 = maxPriceStep q cars4;
          cars6 = minYearStep q cars5;
          cars7 = maxYearStep q cars6;
          cars8 = locationStep q cars7;
          cars9 = conditionStep q cars8
      in sortCars q cars9)"

text \<open>
  The nine filters by name, for statements about the order in which they run.
\<close>

datatype filterName =
  Search | Make | Model | MinPrice | MaxPrice | MinYear | MaxYear | Location | Condition

fun filterStep :: "query \<Rightarrow> filterName \<Rightarrow> car list \<Rightarrow> car list" where
  "filterStep q Search = searchStep q"
| "filterStep q Make = makeStep q"
| "filterStep q Model = modelStep q"
| "filterStep q MinPrice = minPriceStep q"
| "filterStep q MaxPrice = maxPriceStep q"
| "filterStep q MinYear = minYearStep q"
| "filterStep q MaxYear = maxYearStep q"
| "filterStep q Location = locationStep q"
| "filterStep q Condition = conditionStep q"

definition sourceOrder :: "filterName list" where
  "sourceOrder = [Search, Make, Model, MinPrice, MaxPrice, MinYear, MaxYear, Location, Condition]"

section \<open>\<^verbatim>\<open>GET /api/makes\<close>\<close>

definition setAdd :: "'a list \<Rightarrow> 'a \<Rightarrow> 'a list" where
  \<comment> \<open>\<^verbatim>\<open>Set.prototype.add\<close>; a \<^verbatim>\<open>Set\<close> keeps its members in the order of insertion.\<close>
  "setAdd members x = (if x \<in> set members then members else members @ [x])"

definition newSet :: "'a list \<Rightarrow> 'a list" where
  "newSet xs = foldl setAdd [] xs"

definition defaultCompare :: "string \<Rightarrow> string \<Rightarrow> int" where
  \<comment> \<open>The comparison of \<^verbatim>\<open>sort()\<close> without an argument, on strings.\<close>
  "defaultCompare x y = (if x < y then - 1 else if y < x then 1 else 0)"

definition distinctMakes :: "catalog \<Rightarrow> string list" where
  "distinctMakes data = arraySort defaultCompare (newSet (map car_make (cars data)))"

section \<open>\<^verbatim>\<open>POST /api/cars\<close>\<close>

text \<open>
  The parsed JSON body. The seven properties the handler reads are \<open>None\<close>
  (\<^verbatim>\<open>undefined\<close>) when the body does not have them. Their names carry the prefix \<open>b_\<close>.
\<close>

record body =
  b_make :: "jsval option"
  b_model :: "jsval option"
  b_year :: "jsval option"
  b_price :: "jsval option"
  b_location :: "jsval option"
  b_condition :: "jsval option"
  b_image :: "jsval option"

fun truthy :: "jsval option \<Rightarrow> bool" where
  "truthy None = False"
| "truthy (Some JNull) = False"
| "truthy (Some (JBool b)) = b"
| "truthy (Some (JNum n)) = (n \<noteq> 0)"
| "truthy (Some (JStr s)) = (s \<noteq> [])"
| "truthy (Some (JArr vs)) = True"
| "truthy (Some (JObj kvs)) = True"

text \<open>
  In the functions below \<open>None\<close> stands for a thrown \<^verbatim>\<open>TypeError\<close>, which the handler's
  \<^verbatim>\<open>catch\<close> turns into the 500 response.
\<close>

fun trimText :: "jsval option \<Rightarrow> string option" where
  \<comment> \<open>\<^verbatim>\<open>v.trim()\<close>: only a string has the method.\<close>
  "trimText (Some (JStr s)) = Some (trim s)"
| "trimText v = None"

fun joinStrings :: "string option list \<Rightarrow> string option" where
  "joinStrings [] = Some []"
| "joinStrings [s] = s"
| "joinStrings (s # t # ts) =
     (case s of
        None \<Rightarrow> None
      | Some a \<Rightarrow> (case joinStrings (t # ts) of None \<Rightarrow> None | Some b \<Rightarrow> Some (a @ '','' @ b)))"

fun toString :: "jsval \<Rightarrow> string option" where
  \<comment> \<open>\<^verbatim>\<open>ToString\<close> on a JSON value. An array joins its elements with commas, \<^verbatim>\<open>null\<close>
      elements as empty strings; a plain object gives \<^verbatim>\<open>[object Object]\<close>, unless it has
      a property \<^verbatim>\<open>toString\<close> of its own, which is not callable and makes the conversion
      throw.\<close>
  "toString JNull = Some ''null''"
| "toString (JBool b) = Some (if b then ''true'' else ''false'')"
| "toString (JNum n) = Some (numberToString (toDouble n))"
| "toString (JStr s) = Some s"
| "toString (JArr vs) = joinStrings (map (\<lambda>v. if v = JNull then Some [] else toString v) vs)"
| "toString (JObj kvs) =
     (if ''toString'' \<in> set (map fst kvs) then None else Some ''[object Object]'')"

definition parseIntValue :: "jsval option \<Rightarrow> number option" where
  \<comment> \<open>\<^verbatim>\<open>parseInt(v)\<close>; \<^verbatim>\<open>undefined\<close> reads as \<^verbatim>\<open>NaN\<close>.\<close>
  "parseIntValue v =
     (case v of
        None \<Rightarrow> Some NaN
      | Some w \<Rightarrow> (case toString w of None \<Rightarrow> None | Some s \<Rightarrow> Some (parseInt s)))"

definition missingFields :: string where
  "missingFields = ''Missing required fields: make, model, year, price, location, condition''"

definition internalError :: http_error where
  "internalError = HttpError 500 ''Internal server error''"

definition newCar :: "catalog \<Rightarrow> body \<Rightarrow> string \<Rightarrow> car option" where
  \<comment> \<open>The object literal, as JSON holds it; \<open>now\<close> is \<^verbatim>\<open>new Date().toISOString()\<close>.\<close>
  "newCar data b now =
     do {
       make' \<leftarrow> trimText (b_make b);
       model' \<leftarrow> trimText (b_model b);
       year' \<leftarrow> parseIntValue (b_year b);
       price' \<leftarrow> parseIntValue (b_price b);
       location' \<leftarrow> trimText (b_location b);
       condition' \<leftarrow> trimText (b_condition b);
       image' \<leftarrow> trimText (b_image b);
       Some \<lparr> car_id = nextId data, car_make = make', model = model',
              year = jsonNumber year', price = jsonNumber price', location = location',
              condition = condition', image = image', createdAt = now \<rparr>
     }"

definition createListing :: "catalog \<Rightarrow> body \<Rightarrow> string \<Rightarrow> bool \<Rightarrow> http_error + car \<times> catalog" where
  \<comment> \<open>\<open>data\<close> is the catalog that \<^verbatim>\<open>readData()\<close> returned; \<open>writable\<close> says whether
      \<^verbatim>\<open>fs.writeFile\<close> succeeds. A success is the 201 response with the new listing,
      together with the document that \<^verbatim>\<open>writeData\<close> has written. The list
      \<^verbatim>\<open>images\<close> that the handler builds from \<^verbatim>\<open>req.files\<close> is used nowhere and is
      left out.\<close>
  "createListing data b now writable =
     (if \<not> truthy (b_make b) \<or> \<not> truthy (b_model b) \<or> \<not> truthy (b_year b) \<or>
         \<not> truthy (b_price b) \<or> \<not> truthy (b_location b) \<or> \<not> truthy (b_condition b) \<or>
         \<not> truthy (b_image b)
      then Inl (HttpError 400 missingFields)
      else
        (case newCar data b now of
           None \<Rightarrow> Inl internalError
         | Some c \<Rightarrow>
             let data' = data \<lparr> cars := cars data @ [c], nextId := increment (nextId data) \<rparr>
             in if writable then Inr (c, data') else Inl internalError))"

section \<open>The listing store: \<^verbatim>\<open>readData\<close>\<close>

text \<open>
  What \<^verbatim>\<open>fs.readFile(DATA_FILE, "utf8")\<close> meets: no file, a file that cannot be read, or
  a file with some text. \<^verbatim>\<open>JSON.parse\<close> is the runtime's parser and is a parameter
  here; \<open>None\<close> is the \<^verbatim>\<open>SyntaxError\<close> it throws on text that is not JSON. Whatever
  value it returns, a catalog or not, \<open>readData\<close> returns it.
\<close>

datatype dataFile = Absent | Unreadable | Content string

definition emptyDocument :: jsval where
  \<comment> \<open>\<^verbatim>\<open>{ cars: [], nextId: 1 }\<close>\<close>
  "emptyDocument = JObj [(''cars'', JArr []), (''nextId'', JNum 1)]"

definition readData :: "(string \<Rightarrow> jsval option) \<Rightarrow> dataFile \<Rightarrow> jsval" where
  "readData JSON_parse file =
     (case file of
        Absent \<Rightarrow> emptyDocument
      | Unreadable \<Rightarrow> emptyDocument
      | Content text \<Rightarrow>
          (case JSON_parse text of
             None \<Rightarrow> emptyDocument
           | Some data \<Rightarrow> data))"

text \<open>
  The JSON value of a catalog: the document that the handlers above take as \<open>data\<close>.
\<close>

definition encodeNumber :: "int option \<Rightarrow> jsval" where
  "encodeNumber v = (case v of None \<Rightarrow> JNull | Some n \<Rightarrow> JNum n)"

definition encodeCar :: "car \<Rightarrow> jsval" where
  "encodeCar c =
     JObj [(''id'', JNum (car_id c)), (''make'', JStr (car_make c)), (''model'', JStr (model c)),
           (''year'', encodeNumber (year c)), (''price'', encodeNumber (price c)),
           (''location'', JStr (location c)), (''condition'', JStr (condition c)),
           (''image'', JStr (image c)), (''createdAt'', JStr (createdAt c))]"

definition encodeCatalog :: "catalog \<Rightarrow> jsval" where
  "encodeCatalog data =
     JObj [(''cars'', JArr (map encodeCar (cars data))), (''nextId'', JNum (nextId data))]"

section \<open>The counter invariant and successive requests\<close>

definition counterInvariant :: "catalog \<Rightarrow> bool" where
  \<comment> \<open>The invariant of the data model: the counter is above every identifier present.\<close>
  "counterInvariant data = (\<forall>c\<in>set (cars data). car_id c < nextId data)"

fun postAll :: "catalog \<Rightarrow> (body \<times> string \<times> bool) list \<Rightarrow> car list \<times> catalog" where
  \<comment> \<open>POST requests handled one after the other, each reading the document that the
      previous one left. A request that is answered with an error leaves the document as
      it was. The result is the list of the listings created, in order, and the last
      document.\<close>
  "postAll data [] = ([], data)"
| "postAll data ((b, now, writable) # requests) =
     (case createListing data b now writable of
        Inl e \<Rightarrow> postAll data requests
      | Inr (c, data') \<Rightarrow>
          (case postAll data' requests of (created, final) \<Rightarrow> (c # created, final)))"

section \<open>Prices that the sort compares as they are\<close>

definition numericPrice :: "car \<Rightarrow> bool" where
  \<comment> \<open>The price is a number, not \<^verbatim>\<open>null\<close>, and its magnitude is below \<open>10^21\<close>.\<close>
  "numericPrice c =
     (case price c of None \<Rightarrow> False | Some n \<Rightarrow> isDouble n \<and> \<bar>n\<bar> < 10 ^ 21)"

section \<open>Example data\<close>

definition firstCar :: car where
  "firstCar = \<lparr> car_id = 1, car_make = ''BMW'', model = ''X5'', year = Some 2018,
     price = Some 30000, location = ''LA'', condition = ''used'', image = ''/uploads/x5.png'',
     createdAt = ''2024-01-01T00:00:00.000Z'' \<rparr>"

definition secondCar :: car where
  "secondCar = \<lparr> car_id = 2, car_make = ''Audi'', model = ''A4'', year = Some 2015,
     price = Some 10000, location = ''NY'', condition = ''new'', image = ''/uploads/a4.png'',
     createdAt = ''2024-02-01T00:00:00.000Z'' \<rparr>"

definition thirdCar :: car where
  "thirdCar = \<lparr> car_id = 3, car_make = ''Kia'', model = ''Rio'', year = Some 2020,
     price = Some 5000, location = ''LA'', condition = ''new'', image = ''/uploads/rio.png'',
     createdAt = ''2025-01-01T00:00:00.000Z'' \<rparr>"

definition exampleCatalog :: catalog where
  "exampleCatalog = \<lparr> cars = [firstCar, secondCar], nextId = 3 \<rparr>"

definition noParams :: query where
  "noParams = \<lparr> q_search = None, q_make = None, q_model = None, q_minPrice = None,
     q_maxPrice = None, q_minYear = None, q_maxYear = None, q_location = None,
     q_condition = None, q_sortBy = None, q_sortOrder = None \<rparr>"

definition exampleBody :: body where
  "exampleBody = \<lparr> b_make = Some (JStr '' Kia ''), b_model = Some (JStr ''Rio''),
     b_year = Some (JNum 2020), b_price = Some (JStr ''5000''), b_location = Some (JStr ''LA''),
     b_condition = Some (JStr ''new''), b_image = Some (JStr ''/uploads/rio.png'') \<rparr>"

definition exampleParse :: "string \<Rightarrow> jsval option" where
  \<comment> \<open>A stand-in for \<^verbatim>\<open>JSON.parse\<close>, which it agrees with on the texts of the
      examples: it reads \<^verbatim>\<open>null\<close>, \<^verbatim>\<open>{}\<close> and an empty catalog whose counter is 7, and
      throws on every other text.\<close>
  "exampleParse text =
     (if text = ''null'' then Some JNull
      else if text = ''{}'' then Some (JObj [])
      else if text = ''{\"cars\":[],\"nextId\":7}''
        then Some (JObj [(''cars'', JArr []), (''nextId'', JNum 7)])
      else None)"

definition fullCatalog :: catalog where
  \<comment> \<open>A catalog whose counter is \<open>2^53\<close>.\<close>
  "fullCatalog = \<lparr> cars = [firstCar], nextId = 9007199254740992 \<rparr>"

definition costlyCar :: car where
  \<comment> \<open>A listing whose price is \<open>10^21\<close>.\<close>
  "costlyCar = \<lparr> car_id = 4, car_make = ''Rolls'', model = ''Ghost'', year = Some 2021,
     price = Some 1000000000000000000000, location = ''LA'', condition = ''new'',
     image = ''/uploads/ghost.png'', createdAt = ''2024-03-01T00:00:00.000Z'' \<rparr>"

definition unpricedCar :: car where
  \<comment> \<open>A listing as POST stores it for a price that is not a number.\<close>
  "unpricedCar = \<lparr> car_id = 5, car_make = ''Fiat'', model = ''Uno'', year = Some 1999,
     price = None, location = ''NY'', condition = ''used'',
     image = ''/uploads/uno.png'', createdAt = ''2024-04-01T00:00:00.000Z'' \<rparr>"

definition largeIdCar :: car where
  \<comment> \<open>A listing whose identifier is \<open>2^53\<close>.\<close>
  "largeIdCar = \<lparr> car_id = 9007199254740992, car_make = ''Saab'', model = ''900'', year = Some 1990,
     price = Some 2500, location = ''SF'', condition = ''used'',
     image = ''/uploads/900.png'', createdAt = ''2024-05-01T00:00:00.000Z'' \<rparr>"

definition largeIdCatalog :: catalog where
  "largeIdCatalog = \<lparr> cars = [largeIdCar], nextId = 9007199254740994 \<rparr>"

definition costlyCatalog :: catalog where
  "costlyCatalog = \<lparr> cars = [costlyCar, secondCar], nextId = 5 \<rparr>"

definition unpricedCatalog :: catalog where
  "unpricedCatalog = \<lparr> cars = [unpricedCar, secondCar], nextId = 6 \<rparr>"

section \<open>Properties of the numbers\<close>

lemma bitLength_between: "2 ^ k \<le> n \<Longrightarrow> n < 2 ^ Suc k \<Longrightarrow> bitLength n = Suc k"
proof (induction k arbitrary: n)
  case 0
  then have "n = 1" by simp
  then show ?case
    by (simp add: bitLength.simps[of "Suc 0"] bitLength.simps[of 0])
next
  case (Suc k)
  from Suc.prems have "2 ^ k \<le> n div 2" and "n div 2 < 2 ^ Suc k"
    by simp_all
  then have "bitLength (n div 2) = Suc k"
    by (rule Suc.IH)
  moreover from Suc.prems have "n \<noteq> 0"
    by auto
  ultimately show ?case
    by (subst bitLength.simps) simp
qed

lemma roundNat_small: "a \<le> 2 ^ 53 \<Longrightarrow> roundNat a = a"
  by (simp add: roundNat_def)

lemma toDouble_small: "\<bar>i\<bar> \<le> 2 ^ 53 \<Longrightarrow> toDouble i = Finite i"
proof -
  assume a: "\<bar>i\<bar> \<le> 2 ^ 53"
  then have "nat \<bar>i\<bar> \<le> 2 ^ 53"
    by (simp add: nat_le_iff)
  then have r: "roundNat (nat \<bar>i\<bar>) = nat \<bar>i\<bar>"
    by (rule roundNat_small)
  have "(2::nat) ^ 53 < 2 ^ 1024"
    by (rule power_strict_increasing) simp_all
  with \<open>nat \<bar>i\<bar> \<le> 2 ^ 53\<close> have "\<not> nat \<bar>i\<bar> \<ge> 2 ^ 1024"
    by linarith
  then show ?thesis
    by (simp add: toDouble_def r Let_def)
qed

lemma isDouble_small: "\<bar>i\<bar> \<le> 2 ^ 53 \<Longrightarrow> isDouble i"
  by (simp add: isDouble_def toDouble_small)

lemma increment_small: "- (2 ^ 53) \<le> n \<Longrightarrow> n < 2 ^ 53 \<Longrightarrow> increment n = n + 1"
proof -
  assume "- (2 ^ 53) \<le> n" and "n < 2 ^ 53"
  then have "\<bar>n + 1\<bar> \<le> 2 ^ 53"
    by simp
  then show ?thesis
    by (simp add: increment_def toDouble_small)
qed

lemma bitLength_2_53_1: "bitLength 9007199254740993 = 54"
  using bitLength_between[of 53 9007199254740993] by simp

lemma roundNat_2_53_1: "roundNat 9007199254740993 = 9007199254740992"
  by (simp add: roundNat_def bitLength_2_53_1 Let_def)

lemma increment_2_53: "increment 9007199254740992 = 9007199254740992"
  by (simp add: increment_def toDouble_def roundNat_2_53_1 Let_def)

lemma bitLength_10_21: "bitLength 1000000000000000000000 = 70"
  using bitLength_between[of 69 1000000000000000000000] by simp

lemma roundNat_10_21: "roundNat (10 ^ 21) = 10 ^ 21"
  by (simp add: roundNat_def bitLength_10_21 Let_def)

lemma roundNat_10_21_numeral: "roundNat 1000000000000000000000 = 1000000000000000000000"
  using roundNat_10_21 by simp

lemma isDouble_roundNat:
  assumes "isDouble n"
  shows "roundNat (nat \<bar>n\<bar>) = nat \<bar>n\<bar>" and "nat \<bar>n\<bar> < 2 ^ 1024"
proof -
  define m where "m = roundNat (nat \<bar>n\<bar>)"
  have eq: "toDouble n = (if m \<ge> 2 ^ 1024 then (if n < 0 then NegInfinity else PosInfinity)
      else Finite (if n < 0 then - int m else int m))"
    by (simp only: toDouble_def Let_def m_def)
  have fin: "\<not> m \<ge> 2 ^ 1024"
  proof
    assume "m \<ge> 2 ^ 1024"
    with eq have "toDouble n = NegInfinity \<or> toDouble n = PosInfinity"
      by (simp only: if_True) (cases "n < 0", simp_all)
    with assms show False
      by (auto simp: isDouble_def)
  qed
  with eq have "toDouble n = Finite (if n < 0 then - int m else int m)"
    by (simp only: if_False)
  with assms have val: "(if n < 0 then - int m else int m) = n"
    by (simp add: isDouble_def)
  have "int m = \<bar>n\<bar>"
  proof (cases "n < 0")
    case True
    with val show ?thesis by simp
  next
    case False
    with val show ?thesis by simp
  qed
  then have "m = nat \<bar>n\<bar>"
    by linarith
  then show "roundNat (nat \<bar>n\<bar>) = nat \<bar>n\<bar>"
    by (simp only: m_def)
  from fin \<open>m = nat \<bar>n\<bar>\<close> show "nat \<bar>n\<bar> < 2 ^ 1024"
    by (simp only: not_le)
qed

lemma toDouble_of_rounded:
  assumes "roundNat v = x" and "x < 2 ^ 1024"
  shows "toDouble (int v) = Finite (int x)" and "toDouble (- int v) = Finite (- int x)"
proof -
  from assms show "toDouble (int v) = Finite (int x)"
    by (simp add: toDouble_def Let_def)
  show "toDouble (- int v) = Finite (- int x)"
  proof (cases "v = 0")
    case True
    with assms have "x = 0" by (simp add: roundNat_def)
    with True show ?thesis by (simp add: toDouble_def Let_def roundNat_def)
  next
    case False
    with assms show ?thesis
      by (simp add: toDouble_def Let_def)
  qed
qed

lemma isDouble_10_21: "isDouble 1000000000000000000000"
  by (simp add: isDouble_def toDouble_def roundNat_10_21_numeral Let_def)

section \<open>Properties of the strings\<close>

lemma isDecimal_digitChar: "isDecimal (digitChar d)"
  by (simp add: isDecimal_def digitChar_def)

lemma nat_below_10: "(d::nat) < 10 \<Longrightarrow> d = 0 \<or> d = 1 \<or> d = 2 \<or> d = 3 \<or> d = 4 \<or> d = 5 \<or> d = 6 \<or> d = 7 \<or> d = 8 \<or> d = 9"
  by arith

lemma digitValue_digitChar: "d < 10 \<Longrightarrow> digitValue (digitChar d) = Some d"
  using nat_below_10[of d] by (auto simp: digitChar_def digitValue_def)

lemma isDecimal_cases:
  "isDecimal c \<Longrightarrow> c = CHR ''0'' \<or> c = CHR ''1'' \<or> c = CHR ''2'' \<or> c = CHR ''3'' \<or> c = CHR ''4'' \<or>
     c = CHR ''5'' \<or> c = CHR ''6'' \<or> c = CHR ''7'' \<or> c = CHR ''8'' \<or> c = CHR ''9''"
  by (simp add: isDecimal_def)

lemma isDecimal_all:
  assumes "isDecimal c"
  shows "\<not> isWhiteSpace c \<and> c \<noteq> CHR ''-'' \<and> c \<noteq> CHR ''+'' \<and> c \<noteq> CHR ''x'' \<and> c \<noteq> CHR ''X'' \<and>
         isRadixDigit 10 c"
  using isDecimal_cases[OF assms]
  by (elim disjE) (simp_all add: isWhiteSpace_def isRadixDigit_def digitValue_def)

lemma isDecimal_props:
  assumes "isDecimal c"
  shows "\<not> isWhiteSpace c" and "c \<noteq> CHR ''-''" and "c \<noteq> CHR ''+''"
    and "c \<noteq> CHR ''x''" and "c \<noteq> CHR ''X''" and "isRadixDigit 10 c"
  using isDecimal_all[OF assms] by blast+

lemma natToString_decimal: "natToString n \<noteq> [] \<and> (\<forall>c\<in>set (natToString n). isDecimal c)"
proof (induction n rule: natToString.induct)
  case (1 n)
  show ?case
  proof (cases "n < 10")
    case True
    then show ?thesis
      by (subst (1 2) natToString.simps) (simp add: isDecimal_digitChar)
  next
    case False
    with 1 show ?thesis
      by (subst (1 2) natToString.simps) (auto simp: isDecimal_digitChar)
  qed
qed

lemma mathInt_snoc:
  "mathInt R (Z @ [c]) = mathInt R Z * R + (case digitValue c of None \<Rightarrow> 0 | Some d \<Rightarrow> d)"
  by (simp add: mathInt_def)

lemma mathInt_natToString: "mathInt 10 (natToString n) = n"
proof (induction n rule: natToString.induct)
  case (1 n)
  show ?case
  proof (cases "n < 10")
    case True
    then show ?thesis
      by (subst natToString.simps) (simp add: mathInt_def digitValue_digitChar)
  next
    case False
    with 1 have "mathInt 10 (natToString (n div 10)) = n div 10" by simp
    with False show ?thesis
      by (subst natToString.simps) (simp add: mathInt_snoc digitValue_digitChar)
  qed
qed

lemma parse_decimal:
  assumes "Z \<noteq> []" and "\<forall>c\<in>set Z. isDecimal c"
  shows "dropWhile isWhiteSpace Z = Z" and "stripSign Z = (False, Z)"
    and "stripPrefix Z = (10, Z)" and "takeWhile (isRadixDigit 10) Z = Z"
proof -
  from assms obtain a as where Z: "Z = a # as" and a: "isDecimal a"
    by (cases Z) auto
  show "dropWhile isWhiteSpace Z = Z"
    by (simp add: Z isDecimal_props(1)[OF a])
  show "stripSign Z = (False, Z)"
    by (simp add: Z isDecimal_props(2,3)[OF a])
  show "stripPrefix Z = (10, Z)"
  proof (cases as)
    case Nil
    then show ?thesis by (simp add: Z)
  next
    case (Cons b bs)
    with assms(2) Z have "isDecimal b" by simp
    then show ?thesis
      by (simp add: Z Cons isDecimal_props(4,5))
  qed
  show "takeWhile (isRadixDigit 10) Z = Z"
    using assms(2) by (simp add: takeWhile_eq_all_conv isDecimal_props(6))
qed

lemma parseInt_natToString: "parseInt (natToString n) = toDouble (int n)"
  using natToString_decimal[of n]
  by (simp add: parseInt_def parse_decimal mathInt_natToString)

lemma parseInt_minus_natToString: "parseInt (CHR ''-'' # natToString n) = toDouble (- int n)"
  using natToString_decimal[of n]
  by (simp add: parseInt_def isWhiteSpace_def parse_decimal mathInt_natToString)

lemma parseInt_decimalText: "parseInt (decimalText n) = toDouble n"
  by (simp add: decimalText_def parseInt_natToString parseInt_minus_natToString)

lemma natToString_less_10: "n < 10 \<Longrightarrow> natToString n = [digitChar n]"
  by (subst natToString.simps) simp

lemma natToString_ge_10:
  "10 \<le> n \<Longrightarrow> natToString n = natToString (n div 10) @ [digitChar (n mod 10)]"
  by (subst natToString.simps) simp

lemma length_natToString: "0 < m \<Longrightarrow> n < 10 ^ m \<Longrightarrow> length (natToString n) \<le> m"
proof (induction n arbitrary: m rule: natToString.induct)
  case (1 n)
  show ?case
  proof (cases "n < 10")
    case True
    with "1.prems" show ?thesis
      by (simp add: natToString_less_10)
  next
    case False
    with "1.prems" obtain m' where m: "m = Suc m'" and "0 < m'"
      by (cases m; cases "m - 1") auto
    with "1.prems" have "n div 10 < 10 ^ m'"
      by (simp add: less_mult_imp_div_less mult.commute)
    with "1.IH"[OF False \<open>0 < m'\<close>] have "length (natToString (n div 10)) \<le> m'"
      by simp
    with False m show ?thesis
      by (simp add: natToString_ge_10)
  qed
qed

lemma shortestFrom_rounds: "roundNat x = x \<Longrightarrow> roundNat (shortestFrom x j) = x"
  by (induction j) (simp_all add: Let_def)

lemma hi_bound:
  fixes x :: nat
  assumes "x < 10 ^ 21" and "i \<le> 21"
  shows "x div 10 ^ i * 10 ^ i + 10 ^ i \<le> 10 ^ 21"
proof -
  define p :: nat where "p = 10 ^ i"
  define c :: nat where "c = 10 ^ (21 - i)"
  define T :: nat where "T = 10 ^ 21"
  have split: "T = p * c"
    unfolding T_def p_def c_def using assms(2) by (simp only: flip: power_add) simp
  have "x < p * c"
    using assms(1) by (simp only: flip: split T_def)
  then have "x div p < c"
    by (simp add: less_mult_imp_div_less mult.commute)
  then have "x div p + 1 \<le> c"
    by simp
  then have "(x div p + 1) * p \<le> c * p"
    by (rule mult_le_mono1)
  then have "x div p * p + p \<le> T"
    by (simp add: split mult.commute)
  then show ?thesis
    by (simp only: p_def T_def)
qed

lemma shortestFrom_le: "x < 10 ^ 21 \<Longrightarrow> j \<le> 20 \<Longrightarrow> shortestFrom x j \<le> 10 ^ 21"
proof (induction j)
  case 0
  then show ?case by simp
next
  case (Suc j)
  have lo: "x div 10 ^ Suc j * 10 ^ Suc j \<le> 10 ^ 21"
    using Suc.prems(1) by (meson div_times_less_eq_dividend le_trans less_imp_le_nat)
  have hi: "x div 10 ^ Suc j * 10 ^ Suc j + 10 ^ Suc j \<le> 10 ^ 21"
    using Suc.prems by (intro hi_bound) simp_all
  from Suc have ih: "shortestFrom x j \<le> 10 ^ 21"
    by simp
  show ?case
    unfolding shortestFrom.simps Let_def using lo hi ih by (simp only: split: if_split) blast
qed

lemma shortestDecimal_below:
  assumes "roundNat x = x" and "x < 10 ^ 21"
  shows "shortestDecimal x < 10 ^ 21" and "roundNat (shortestDecimal x) = x"
proof -
  have "length (natToString x) \<le> 21"
    using assms(2) by (intro length_natToString) simp_all
  then have "shortestFrom x (length (natToString x) - 1) \<le> 10 ^ 21"
    using assms(2) by (intro shortestFrom_le) simp_all
  then have le: "shortestDecimal x \<le> 10 ^ 21"
    by (simp add: shortestDecimal_def)
  show r: "roundNat (shortestDecimal x) = x"
    unfolding shortestDecimal_def using assms(1) by (rule shortestFrom_rounds)
  have "shortestDecimal x \<noteq> 10 ^ 21"
  proof
    assume "shortestDecimal x = 10 ^ 21"
    with r have "roundNat (10 ^ 21) = x" by (simp only:)
    then have "x = 10 ^ 21" by (simp only: roundNat_10_21)
    with assms(2) show False by (simp only: less_irrefl)
  qed
  with le show "shortestDecimal x < 10 ^ 21"
    by simp
qed

lemma parseInt_numberToString:
  assumes "isDouble n" and "\<bar>n\<bar> < 10 ^ 21"
  shows "parseInt (numberToString (Finite n)) = Finite n"
proof -
  define x where "x = nat \<bar>n\<bar>"
  have rx: "roundNat x = x" and fin: "x < 2 ^ 1024"
    unfolding x_def using isDouble_roundNat[OF assms(1)] by simp_all
  have small: "x < 10 ^ 21"
    unfolding x_def using assms(2) by (simp add: nat_less_iff)
  note v = shortestDecimal_below[OF rx small]
  have str: "positiveToString x = natToString (shortestDecimal x)"
    using v(1) by (simp add: positiveToString_def Let_def)
  note d = toDouble_of_rounded[OF v(2) fin]
  show ?thesis
  proof (cases "n < 0")
    case True
    then have "int x = - n" and "nat (- n) = x" by (simp_all add: x_def)
    with True d(2) show ?thesis
      by (simp add: numberToString_def str parseInt_minus_natToString)
  next
    case False
    then have "int x = n" and "nat n = x" by (simp_all add: x_def)
    with False d(1) show ?thesis
      by (simp add: numberToString_def str parseInt_natToString)
  qed
qed

lemma parseIntStored_numeric:
  "numericPrice c \<Longrightarrow> \<exists>n. price c = Some n \<and> parseIntStored (price c) = Finite n"
  by (auto simp: numericPrice_def parseIntStored_def parseInt_numberToString split: option.splits)

lemma parseIntStored_small: "\<bar>n\<bar> \<le> 2 ^ 53 \<Longrightarrow> parseIntStored (Some n) = Finite n"
proof -
  assume a: "\<bar>n\<bar> \<le> 2 ^ 53"
  have "(2::int) ^ 53 < 10 ^ 21" by simp
  with a have "\<bar>n\<bar> < 10 ^ 21" by linarith
  with a show ?thesis
    by (simp add: parseIntStored_def parseInt_numberToString isDouble_small)
qed

lemma parseInt_examples:
  "parseInt ''2'' = Finite 2" "parseInt ''999'' = Finite 999" "parseInt ''abc'' = NaN"
  "parseInt ''5000'' = Finite 5000"
  by (simp_all add: parseInt_def isWhiteSpace_def isRadixDigit_def digitValue_def mathInt_def
        toDouble_small)

lemma trim_examples:
  "trim '' Kia '' = ''Kia''" "trim ''Rio'' = ''Rio''" "trim ''LA'' = ''LA''" "trim ''new'' = ''new''"
  "trim ''/uploads/rio.png'' = ''/uploads/rio.png''"
  by (simp_all add: trim_def isWhiteSpace_def)

lemma parseInt_number_2020: "parseInt (numberToString (toDouble 2020)) = Finite 2020"
proof -
  have "(2020::int) < 10 ^ 21" by simp
  then show ?thesis
    by (simp add: toDouble_small parseInt_numberToString isDouble_small)
qed

lemma natToString_10_21: "natToString 1000000000000000000000 = ''1000000000000000000000''"
  by (simp add: natToString_ge_10 natToString_less_10 digitChar_def)

lemma natToString_21: "natToString 21 = ''21''"
  by (simp add: natToString_ge_10 natToString_less_10 digitChar_def)

lemma shortestDecimal_10_21: "shortestDecimal 1000000000000000000000 = 1000000000000000000000"
proof -
  have "shortestFrom 1000000000000000000000 (Suc 20) = 1000000000000000000000"
    by (subst shortestFrom.simps(2)) (simp add: Let_def roundNat_10_21_numeral)
  moreover have "length (natToString 1000000000000000000000) - 1 = Suc 20"
    by (simp add: natToString_10_21)
  ultimately show ?thesis
    by (simp only: shortestDecimal_def)
qed

lemma exponentForm_10_21: "exponentForm 1000000000000000000000 = ''1e+21''"
proof -
  have len: "length ''1000000000000000000000'' - 1 = (21::nat)"
    by simp
  show ?thesis
    unfolding exponentForm_def natToString_10_21 Let_def len natToString_21 by simp
qed

lemma numberToString_10_21: "numberToString (Finite 1000000000000000000000) = ''1e+21''"
  by (simp add: numberToString_def positiveToString_def shortestDecimal_10_21 exponentForm_10_21
        Let_def)

lemma parseInt_1e21: "parseInt ''1e+21'' = Finite 1"
  by (simp add: parseInt_def isWhiteSpace_def isRadixDigit_def digitValue_def mathInt_def
        toDouble_small)

lemma parseIntStored_costly: "parseIntStored (price costlyCar) = Finite 1"
  by (simp add: parseIntStored_def costlyCar_def numberToString_10_21 parseInt_1e21)

lemma parseIntStored_second: "parseIntStored (price secondCar) = Finite 10000"
  by (simp add: secondCar_def parseIntStored_small)

lemma parseIntStored_unpriced: "parseIntStored (price unpricedCar) = NaN"
  by (simp add: parseIntStored_def unpricedCar_def)

section \<open>Looking up a listing\<close>

lemma find_by_key:
  "distinct (map f xs) \<Longrightarrow> x \<in> set xs \<Longrightarrow> find (\<lambda>c. f x = f c) xs = Some x"
proof (induction xs)
  case Nil
  then show ?case by simp
next
  case (Cons y ys)
  show ?case
  proof (cases "y = x")
    case True
    then show ?thesis by simp
  next
    case False
    with Cons.prems have "x \<in> set ys" and "f y \<noteq> f x" and "distinct (map f ys)"
      by auto
    with Cons.IH show ?thesis by auto
  qed
qed

lemma find_no_key:
  "(\<forall>x\<in>set xs. k \<noteq> Finite (f x)) \<Longrightarrow> find (\<lambda>c. k = Finite (f c)) xs = None"
  by (induction xs) auto

lemma parseInt_2_53_1: "parseInt ''9007199254740993'' = Finite 9007199254740992"
proof -
  have "mathInt 10 ''9007199254740993'' = 9007199254740993"
    by (simp add: mathInt_def digitValue_def)
  moreover have "toDouble 9007199254740993 = Finite 9007199254740992"
    by (simp add: toDouble_def roundNat_2_53_1 Let_def)
  ultimately show ?thesis
    by (simp add: parseInt_def isWhiteSpace_def isRadixDigit_def digitValue_def)
qed

lemma decimalText_2_53_1: "decimalText 9007199254740993 = ''9007199254740993''"
  by (simp add: decimalText_def natToString_ge_10 natToString_less_10 digitChar_def)

text \<open>
  Claim C3, as amended. In a catalog whose listings have pairwise distinct identifiers, a
  request for the identifier of a listing \<open>L\<close> of the catalog returns \<open>L\<close>: for every
  path parameter that \<^verbatim>\<open>parseInt\<close> reads as that identifier, among them the decimal
  digits of the identifier. A request for an identifier that no listing has gives the 404
  answer with the error \<^verbatim>\<open>Car not found\<close> when the identifier is a double (as every
  integer up to \<open>2^53\<close> is), and more generally for every path parameter that
  \<^verbatim>\<open>parseInt\<close> reads as no listing's identifier, \<^verbatim>\<open>NaN\<close> and the infinities included.
\<close>

theorem getById_returns_listing:
  assumes "distinct (map car_id (cars data))"
  shows "(\<forall>L\<in>set (cars data).
            (\<forall>idParam. parseInt idParam = Finite (car_id L) \<longrightarrow> getById data idParam = Inr L) \<and>
            (isDouble (car_id L) \<longrightarrow> getById data (decimalText (car_id L)) = Inr L)) \<and>
         (\<forall>idParam. (\<forall>L\<in>set (cars data). parseInt idParam \<noteq> Finite (car_id L)) \<longrightarrow>
            getById data idParam = Inl (HttpError 404 ''Car not found'')) \<and>
         (\<forall>n. isDouble n \<and> n \<notin> car_id ` set (cars data) \<longrightarrow>
            getById data (decimalText n) = Inl (HttpError 404 ''Car not found''))"
proof (intro conjI ballI allI impI)
  fix L idParam
  assume L: "L \<in> set (cars data)" and "parseInt idParam = Finite (car_id L)"
  with assms show "getById data idParam = Inr L"
    by (simp add: getById_def find_by_key)
next
  fix L
  assume L: "L \<in> set (cars data)" and "isDouble (car_id L)"
  then have "parseInt (decimalText (car_id L)) = Finite (car_id L)"
    by (simp add: parseInt_decimalText isDouble_def)
  with assms L show "getById data (decimalText (car_id L)) = Inr L"
    by (simp add: getById_def find_by_key)
next
  fix idParam
  assume "\<forall>L\<in>set (cars data). parseInt idParam \<noteq> Finite (car_id L)"
  then show "getById data idParam = Inl (HttpError 404 ''Car not found'')"
    by (simp add: getById_def find_no_key)
next
  fix n
  assume n: "isDouble n \<and> n \<notin> car_id ` set (cars data)"
  then have "parseInt (decimalText n) = Finite n"
    by (simp add: parseInt_decimalText isDouble_def)
  moreover from n have "\<forall>L\<in>set (cars data). Finite n \<noteq> Finite (car_id L)"
    by auto
  ultimately show "getById data (decimalText n) = Inl (HttpError 404 ''Car not found'')"
    by (simp only: getById_def find_no_key option.case)
qed

theorem getById_returns_listing_witness:
  "distinct (map car_id (cars exampleCatalog)) \<and>
   getById exampleCatalog ''2'' = Inr secondCar \<and>
   isDouble (car_id firstCar) \<and>
   getById exampleCatalog (decimalText (car_id firstCar)) = Inr firstCar \<and>
   getById exampleCatalog ''999'' = Inl (HttpError 404 ''Car not found'') \<and>
   isDouble 7 \<and>
   getById exampleCatalog (decimalText 7) = Inl (HttpError 404 ''Car not found'')"
proof -
  have d: "distinct (map car_id (cars exampleCatalog))"
    by (simp add: exampleCatalog_def firstCar_def secondCar_def)
  have m2: "secondCar \<in> set (cars exampleCatalog)" and m1: "firstCar \<in> set (cars exampleCatalog)"
    by (simp_all add: exampleCatalog_def)
  have p: "parseInt ''2'' = Finite (car_id secondCar)"
    by (simp add: parseInt_examples secondCar_def)
  have i1: "isDouble (car_id firstCar)" and i7: "isDouble 7"
    by (simp_all add: isDouble_small firstCar_def)
  have n: "\<forall>L\<in>set (cars exampleCatalog). parseInt ''999'' \<noteq> Finite (car_id L)"
    by (simp add: parseInt_examples exampleCatalog_def firstCar_def secondCar_def)
  have n7: "7 \<notin> car_id ` set (cars exampleCatalog)"
    by (simp add: exampleCatalog_def firstCar_def secondCar_def)
  note g = getById_returns_listing[OF d]
  from g have found: "\<forall>L\<in>set (cars exampleCatalog).
      (\<forall>idParam. parseInt idParam = Finite (car_id L) \<longrightarrow> getById exampleCatalog idParam = Inr L) \<and>
      (isDouble (car_id L) \<longrightarrow> getById exampleCatalog (decimalText (car_id L)) = Inr L)"
    by (rule conjunct1)
  from g have missing: "\<forall>idParam. (\<forall>L\<in>set (cars exampleCatalog). parseInt idParam \<noteq> Finite (car_id L)) \<longrightarrow>
      getById exampleCatalog idParam = Inl (HttpError 404 ''Car not found'')"
    by (rule conjunct2[THEN conjunct1])
  from g have absent: "\<forall>n. isDouble n \<and> n \<notin> car_id ` set (cars exampleCatalog) \<longrightarrow>
      getById exampleCatalog (decimalText n) = Inl (HttpError 404 ''Car not found'')"
    by (rule conjunct2[THEN conjunct2])
  from bspec[OF found m2] p have a: "getById exampleCatalog ''2'' = Inr secondCar"
    by blast
  from bspec[OF found m1] i1 have b: "getById exampleCatalog (decimalText (car_id firstCar)) = Inr firstCar"
    by blast
  from spec[OF missing, of "''999''"] n have c: "getById exampleCatalog ''999'' = Inl (HttpError 404 ''Car not found'')"
    by (rule mp)
  from spec[OF absent, of 7] i7 n7 have e: "getById exampleCatalog (decimalText 7) = Inl (HttpError 404 ''Car not found'')"
    by blast
  from d a i1 b c i7 e show ?thesis
    by (intro conjI)
qed

text \<open>
  The claim as first stated, for every identifier that no listing has, fails for an
  identifier that is no double: \<^verbatim>\<open>parseInt\<close> reads \<^verbatim>\<open>9007199254740993\<close> as \<open>2^53\<close>,
  and the request returns the listing with that identifier.
\<close>

theorem getById_rounds_counterexample:
  "distinct (map car_id (cars largeIdCatalog)) \<and>
   9007199254740993 \<notin> car_id ` set (cars largeIdCatalog) \<and>
   decimalText 9007199254740993 = ''9007199254740993'' \<and>
   getById largeIdCatalog ''9007199254740993'' = Inr largeIdCar"
proof (intro conjI)
  show "distinct (map car_id (cars largeIdCatalog))"
    by (simp add: largeIdCatalog_def)
  show "9007199254740993 \<notin> car_id ` set (cars largeIdCatalog)"
    by (simp add: largeIdCatalog_def largeIdCar_def)
  show "decimalText 9007199254740993 = ''9007199254740993''"
    by (rule decimalText_2_53_1)
  show "getById largeIdCatalog ''9007199254740993'' = Inr largeIdCar"
    by (simp add: getById_def parseInt_2_53_1 largeIdCatalog_def) (simp add: largeIdCar_def)
qed

section \<open>Filtering\<close>

lemma whenGiven_filter:
  "whenGiven p keep cs = filter (\<lambda>c. case p of None \<Rightarrow> True | Some s \<Rightarrow> s = [] \<or> keep s c) cs"
  by (simp add: whenGiven_def split: option.splits)

lemma whenGiven_Nil: "whenGiven p keep [] = []"
  by (simp add: whenGiven_filter)

lemma filterStep_filter: "\<exists>P. \<forall>cs. filterStep q k cs = filter P cs"
  by (cases k)
     (auto simp: searchStep_def makeStep_def modelStep_def minPriceStep_def maxPriceStep_def
        minYearStep_def maxYearStep_def locationStep_def conditionStep_def whenGiven_filter)

lemma filterStep_commute:
  "filterStep q a (filterStep q b cs) = filterStep q b (filterStep q a cs)"
proof -
  obtain P where P: "\<And>cs. filterStep q a cs = filter P cs"
    using filterStep_filter[of q a] by auto
  obtain Q where Q: "\<And>cs. filterStep q b cs = filter Q cs"
    using filterStep_filter[of q b] by auto
  show ?thesis
    by (simp add: P Q conj_commute)
qed

lemma filterStep_mset: "mset (filterStep q k cs) \<subseteq># mset cs"
proof -
  obtain P where P: "\<And>cs. filterStep q k cs = filter P cs"
    using filterStep_filter[of q k] by auto
  show ?thesis
    by (simp add: P)
qed

lemma fold_filterStep_mset: "mset (fold (filterStep q) ks cs) \<subseteq># mset cs"
proof (induction ks arbitrary: cs)
  case Nil
  show ?case by simp
next
  case (Cons k ks)
  have "mset (fold (filterStep q) ks (filterStep q k cs)) \<subseteq># mset (filterStep q k cs)"
    by (rule Cons.IH)
  also have "\<dots> \<subseteq># mset cs"
    by (rule filterStep_mset)
  finally show ?case by simp
qed

lemma fold_filterStep_filter: "\<exists>P. \<forall>cs. fold (filterStep q) ks cs = filter P cs"
proof (induction ks)
  case Nil
  have "\<forall>cs. fold (filterStep q) [] cs = filter (\<lambda>c. True) cs" by simp
  then show ?case by blast
next
  case (Cons k ks)
  then obtain P where P: "\<And>cs. fold (filterStep q) ks cs = filter P cs" by blast
  obtain Q where Q: "\<And>cs. filterStep q k cs = filter Q cs"
    using filterStep_filter[of q k] by blast
  have "\<forall>cs. fold (filterStep q) (k # ks) cs = filter (\<lambda>c. Q c \<and> P c) cs"
    by (simp add: P Q)
  then show ?case by blast
qed

lemma listAll_fold:
  "listAll data q = sortCars q (fold (filterStep q) sourceOrder (cars data))"
  by (simp add: listAll_def sourceOrder_def Let_def)

lemma no_filters: "fold (filterStep noParams) sourceOrder cs = cs"
  by (simp add: sourceOrder_def searchStep_def makeStep_def modelStep_def minPriceStep_def
        maxPriceStep_def minYearStep_def maxYearStep_def locationStep_def conditionStep_def
        whenGiven_def noParams_def)

lemma bound_NaN: "\<not> atLeastBound v NaN" "\<not> atMostBound v NaN"
  by (simp_all add: atLeastBound_def atMostBound_def)

lemma step_NaN:
  "s \<noteq> [] \<Longrightarrow> parseInt s = NaN \<Longrightarrow> q_minPrice q = Some s \<Longrightarrow> minPriceStep q cs = []"
  "s \<noteq> [] \<Longrightarrow> parseInt s = NaN \<Longrightarrow> q_maxPrice q = Some s \<Longrightarrow> maxPriceStep q cs = []"
  "s \<noteq> [] \<Longrightarrow> parseInt s = NaN \<Longrightarrow> q_minYear q = Some s \<Longrightarrow> minYearStep q cs = []"
  "s \<noteq> [] \<Longrightarrow> parseInt s = NaN \<Longrightarrow> q_maxYear q = Some s \<Longrightarrow> maxYearStep q cs = []"
  by (simp_all add: minPriceStep_def maxPriceStep_def minYearStep_def maxYearStep_def
        whenGiven_def bound_NaN)

lemma step_Nil:
  "searchStep q [] = []" "makeStep q [] = []" "modelStep q [] = []" "minPriceStep q [] = []"
  "maxPriceStep q [] = []" "minYearStep q [] = []" "maxYearStep q [] = []"
  "locationStep q [] = []" "conditionStep q [] = []"
  by (simp_all add: searchStep_def makeStep_def modelStep_def minPriceStep_def maxPriceStep_def
        minYearStep_def maxYearStep_def locationStep_def conditionStep_def whenGiven_Nil)

section \<open>Sorting\<close>

lemma mset_insertBy: "mset (insertBy f x ys) = add_mset x (mset ys)"
  by (induction ys) simp_all

lemma mset_arraySort: "mset (arraySort f xs) = mset xs"
  by (induction xs) (simp_all add: mset_insertBy)

lemma set_insertBy: "set (insertBy f x ys) = insert x (set ys)"
  by (induction ys) auto

lemma set_arraySort: "set (arraySort f xs) = set xs"
  by (induction xs) (simp_all add: set_insertBy)

lemma distinct_arraySort: "distinct (arraySort f xs) = distinct xs"
  using mset_arraySort[of f xs] by (metis mset_eq_imp_distinct_iff)

lemma mset_sortCars: "mset (sortCars q cs) = mset cs"
  by (simp add: sortCars_def Let_def mset_arraySort)

lemma sortCars_Nil: "sortCars q [] = []"
  by (simp add: sortCars_def Let_def)

lemma sorted_insertBy_on:
  fixes k :: "'a \<Rightarrow> 'b::linorder"
  assumes cmp: "\<And>y. y \<in> set ys \<Longrightarrow> (f x y > 0) = (k y < k x)"
  shows "sorted (map k ys) \<Longrightarrow> sorted (map k (insertBy f x ys))"
  using cmp
proof (induction ys)
  case Nil
  show ?case by simp
next
  case (Cons y ys)
  show ?case
  proof (cases "f x y > 0")
    case True
    with Cons.prems(2)[of y] have "k y < k x" by simp
    with Cons True show ?thesis
      by (auto simp: set_insertBy)
  next
    case False
    with Cons.prems(2)[of y] have "k x \<le> k y" by (simp add: not_less)
    with Cons.prems(1) False show ?thesis
      by auto
  qed
qed

lemma sorted_arraySort_on:
  fixes k :: "'a \<Rightarrow> 'b::linorder"
  assumes cmp: "\<And>x y. x \<in> set xs \<Longrightarrow> y \<in> set xs \<Longrightarrow> (f x y > 0) = (k y < k x)"
  shows "sorted (map k (arraySort f xs))"
  using cmp
proof (induction xs)
  case Nil
  show ?case by simp
next
  case (Cons x xs)
  have "sorted (map k (arraySort f xs))"
    by (rule Cons.IH) (simp add: Cons.prems)
  moreover have "(f x y > 0) = (k y < k x)" if "y \<in> set (arraySort f xs)" for y
    using that by (simp add: set_arraySort Cons.prems)
  ultimately have "sorted (map k (insertBy f x (arraySort f xs)))"
    by (rule sorted_insertBy_on[rotated])
  then show ?case
    by simp
qed

lemma listAll_mset: "mset (listAll data q) \<subseteq># mset (cars data)"
  by (simp add: listAll_fold mset_sortCars fold_filterStep_mset)

lemma filterStep_sort_params:
  "filterStep (q\<lparr>q_sortBy := sb, q_sortOrder := so\<rparr>) k = filterStep q k"
  by (cases k)
     (simp_all add: searchStep_def makeStep_def modelStep_def minPriceStep_def maxPriceStep_def
        minYearStep_def maxYearStep_def locationStep_def conditionStep_def)

lemma listAll_sorted_by:
  "listAll data (q\<lparr>q_sortBy := Some sb, q_sortOrder := Some so\<rparr>) =
   arraySort (compareCars sb so) (fold (filterStep q) sourceOrder (cars data))"
proof -
  have "fold (filterStep (q\<lparr>q_sortBy := Some sb, q_sortOrder := Some so\<rparr>)) = fold (filterStep q)"
    by (simp add: filterStep_sort_params fun_eq_iff cong: fold_cong)
  then show ?thesis
    by (simp add: listAll_fold sortCars_def)
qed

lemma compare_price_asc:
  assumes "numericPrice x" and "numericPrice y"
  shows "(compareCars ''price'' ''asc'' x y > 0) = (toNumber (price y) < toNumber (price x))"
  using parseIntStored_numeric[OF assms(1)] parseIntStored_numeric[OF assms(2)]
  by (auto simp: compareCars_def greaterBy_def toNumber_def)

lemma compare_price_desc:
  assumes "numericPrice x" and "numericPrice y"
  shows "(compareCars ''price'' ''desc'' x y > 0) = (- toNumber (price y) < - toNumber (price x))"
  using parseIntStored_numeric[OF assms(1)] parseIntStored_numeric[OF assms(2)]
  by (auto simp: compareCars_def greaterBy_def toNumber_def)

lemma numericPrice_examples: "numericPrice firstCar" "numericPrice secondCar"
proof -
  have "(30000::int) < 10 ^ 21" and "(10000::int) < 10 ^ 21" by simp_all
  then show "numericPrice firstCar" "numericPrice secondCar"
    by (simp_all add: numericPrice_def firstCar_def secondCar_def isDouble_small)
qed

lemma costly_sorted:
  "listAll costlyCatalog (noParams\<lparr>q_sortBy := Some ''price'', q_sortOrder := Some ''asc''\<rparr>) =
     [costlyCar, secondCar]"
  by (simp add: listAll_sorted_by no_filters costlyCatalog_def compareCars_def greaterBy_def
        parseIntStored_costly parseIntStored_second)

lemma unpriced_sorted:
  "listAll unpricedCatalog (noParams\<lparr>q_sortBy := Some ''price'', q_sortOrder := Some ''asc''\<rparr>) =
   listAll unpricedCatalog (noParams\<lparr>q_sortBy := Some ''price'', q_sortOrder := Some ''desc''\<rparr>)"
  "length (listAll unpricedCatalog (noParams\<lparr>q_sortBy := Some ''price'', q_sortOrder := Some ''asc''\<rparr>)) = 2"
  "distinct (listAll unpricedCatalog (noParams\<lparr>q_sortBy := Some ''price'', q_sortOrder := Some ''asc''\<rparr>))"
  by (simp_all add: listAll_sorted_by no_filters unpricedCatalog_def compareCars_def greaterBy_def
        parseIntStored_unpriced parseIntStored_second)
     (simp add: unpricedCar_def secondCar_def)

section \<open>The listing query\<close>

text \<open>
  Claim C4. When \<^verbatim>\<open>minPrice\<close>, \<^verbatim>\<open>maxPrice\<close>, \<^verbatim>\<open>minYear\<close> or \<^verbatim>\<open>maxYear\<close> is a
  non-empty string that \<^verbatim>\<open>parseInt\<close> reads as \<^verbatim>\<open>NaN\<close>, the comparison against the
  bound fails for every listing and \<open>listAll\<close> returns the empty sequence, whatever the
  catalog and the other parameters.
\<close>

theorem nan_bound_empties_result:
  assumes "s \<noteq> []" and "parseInt s = NaN"
    and "q_minPrice q = Some s \<or> q_maxPrice q = Some s \<or> q_minYear q = Some s \<or> q_maxYear q = Some s"
  shows "(\<forall>c. \<not> atLeastBound (price c) (parseInt s) \<and> \<not> atMostBound (price c) (parseInt s) \<and>
              \<not> atLeastBound (year c) (parseInt s) \<and> \<not> atMostBound (year c) (parseInt s)) \<and>
         listAll data q = []"
proof
  show "\<forall>c. \<not> atLeastBound (price c) (parseInt s) \<and> \<not> atMostBound (price c) (parseInt s) \<and>
              \<not> atLeastBound (year c) (parseInt s) \<and> \<not> atMostBound (year c) (parseInt s)"
    by (simp add: assms(2) bound_NaN)
  from assms(3) show "listAll data q = []"
    unfolding listAll_def Let_def
    by (elim disjE) (simp_all add: step_NaN[OF assms(1,2)] step_Nil sortCars_Nil)
qed

theorem nan_bound_empties_result_witness:
  "''abc'' \<noteq> [] \<and> parseInt ''abc'' = NaN \<and>
   listAll exampleCatalog (noParams\<lparr>q_minPrice := Some ''abc''\<rparr>) = [] \<and>
   listAll exampleCatalog (noParams\<lparr>q_maxYear := Some ''abc''\<rparr>) = []"
proof -
  have a: "''abc'' \<noteq> []" and b: "parseInt ''abc'' = NaN"
    by (simp_all add: parseInt_examples)
  have "listAll exampleCatalog (noParams\<lparr>q_minPrice := Some ''abc''\<rparr>) = []"
    by (rule nan_bound_empties_result[OF a b, THEN conjunct2]) simp
  moreover have "listAll exampleCatalog (noParams\<lparr>q_maxYear := Some ''abc''\<rparr>) = []"
    by (rule nan_bound_empties_result[OF a b, THEN conjunct2]) simp
  ultimately show ?thesis using a b by blast
qed

text \<open>
  Claim C5. Any two of the nine filters give the same list in either order, and running
  the nine filters in any order at all, followed by the sort, gives the result of
  \<open>listAll\<close>, which runs them in the order of the source.
\<close>

theorem filters_commute:
  "(\<forall>a b cs. filterStep q a (filterStep q b cs) = filterStep q b (filterStep q a cs)) \<and>
   (\<forall>ks. mset ks = mset sourceOrder \<longrightarrow>
      sortCars q (fold (filterStep q) ks (cars data)) = listAll data q)"
proof (intro conjI allI impI)
  show "filterStep q a (filterStep q b cs) = filterStep q b (filterStep q a cs)" for a b cs
    by (rule filterStep_commute)
next
  fix ks :: "filterName list"
  assume perm: "mset ks = mset sourceOrder"
  have "fold (filterStep q) ks = fold (filterStep q) sourceOrder"
    by (rule fold_multiset_equiv[OF _ perm]) (simp add: fun_eq_iff filterStep_commute)
  then show "sortCars q (fold (filterStep q) ks (cars data)) = listAll data q"
    by (simp add: listAll_fold)
qed

theorem filters_commute_witness:
  "mset [Condition, Make, Location, MaxYear, MinYear, MaxPrice, MinPrice, Model, Search] = mset sourceOrder \<and>
   sortCars (noParams\<lparr>q_make := Some ''bmw'', q_condition := Some ''USED''\<rparr>)
     (fold (filterStep (noParams\<lparr>q_make := Some ''bmw'', q_condition := Some ''USED''\<rparr>))
        [Condition, Make, Location, MaxYear, MinYear, MaxPrice, MinPrice, Model, Search]
        (cars exampleCatalog)) =
   listAll exampleCatalog (noParams\<lparr>q_make := Some ''bmw'', q_condition := Some ''USED''\<rparr>) \<and>
   conditionStep (noParams\<lparr>q_make := Some ''bmw'', q_condition := Some ''USED''\<rparr>)
     (makeStep (noParams\<lparr>q_make := Some ''bmw'', q_condition := Some ''USED''\<rparr>) (cars exampleCatalog)) =
   makeStep (noParams\<lparr>q_make := Some ''bmw'', q_condition := Some ''USED''\<rparr>)
     (conditionStep (noParams\<lparr>q_make := Some ''bmw'', q_condition := Some ''USED''\<rparr>) (cars exampleCatalog))"
proof -
  have perm: "mset [Condition, Make, Location, MaxYear, MinYear, MaxPrice, MinPrice, Model, Search] = mset sourceOrder"
    by (simp add: sourceOrder_def)
  note fc = filters_commute[of "noParams\<lparr>q_make := Some ''bmw'', q_condition := Some ''USED''\<rparr>" exampleCatalog]
  from fc perm have "sortCars (noParams\<lparr>q_make := Some ''bmw'', q_condition := Some ''USED''\<rparr>)
     (fold (filterStep (noParams\<lparr>q_make := Some ''bmw'', q_condition := Some ''USED''\<rparr>))
        [Condition, Make, Location, MaxYear, MinYear, MaxPrice, MinPrice, Model, Search]
        (cars exampleCatalog)) =
   listAll exampleCatalog (noParams\<lparr>q_make := Some ''bmw'', q_condition := Some ''USED''\<rparr>)"
    by blast
  moreover from fc have "filterStep (noParams\<lparr>q_make := Some ''bmw'', q_condition := Some ''USED''\<rparr>) Condition
     (filterStep (noParams\<lparr>q_make := Some ''bmw'', q_condition := Some ''USED''\<rparr>) Make (cars exampleCatalog)) =
     filterStep (noParams\<lparr>q_make := Some ''bmw'', q_condition := Some ''USED''\<rparr>) Make
     (filterStep (noParams\<lparr>q_make := Some ''bmw'', q_condition := Some ''USED''\<rparr>) Condition (cars exampleCatalog))"
    by blast
  ultimately show ?thesis
    using perm by (simp only: filterStep.simps simp_thms)
qed

text \<open>
  Claim C6, as amended. For a catalog whose listings have pairwise distinct prices, each
  of them a number (not \<^verbatim>\<open>null\<close>) of magnitude below \<open>10^21\<close>, \<open>listAll\<close> with
  \<^verbatim>\<open>sortBy=price\<close> and \<^verbatim>\<open>sortOrder=asc\<close> is the reverse of \<open>listAll\<close> with
  \<^verbatim>\<open>sortBy=price\<close> and \<^verbatim>\<open>sortOrder=desc\<close> (for the same filter parameters), and in the
  ascending result every listing has a lesser price than all listings behind it.
\<close>

theorem price_sort_reversed:
  assumes uniq: "distinct (map price (cars data))"
    and nums: "\<forall>c\<in>set (cars data). numericPrice c"
  shows "listAll data (q\<lparr>q_sortBy := Some ''price'', q_sortOrder := Some ''asc''\<rparr>) =
         rev (listAll data (q\<lparr>q_sortBy := Some ''price'', q_sortOrder := Some ''desc''\<rparr>)) \<and>
         sorted_wrt (\<lambda>a b. toNumber (price a) < toNumber (price b))
           (listAll data (q\<lparr>q_sortBy := Some ''price'', q_sortOrder := Some ''asc''\<rparr>)) \<and>
         mset (listAll data (q\<lparr>q_sortBy := Some ''price'', q_sortOrder := Some ''asc''\<rparr>)) =
           mset (fold (filterStep q) sourceOrder (cars data))"
proof -
  define xs where "xs = fold (filterStep q) sourceOrder (cars data)"
  define k where "k = (\<lambda>c::car. toNumber (price c))"
  define A where "A = arraySort (compareCars ''price'' ''asc'') xs"
  define D where "D = arraySort (compareCars ''price'' ''desc'') xs"
  obtain P where xs_filter: "xs = filter P (cars data)"
    unfolding xs_def using fold_filterStep_filter[of q sourceOrder] by blast
  have num: "numericPrice c" if "c \<in> set xs" for c
    using that nums by (simp add: xs_filter)
  have some: "price c \<noteq> None" if "c \<in> set xs" for c
    using num[OF that] by (auto simp: numericPrice_def split: option.splits)
  have "distinct (map price xs)"
    unfolding xs_filter using uniq by (rule distinct_map_filter)
  then have dxs: "distinct xs" and inj_price: "inj_on price (set xs)"
    by (simp_all add: distinct_map)
  have inj: "inj_on k (set xs)"
  proof (rule inj_onI)
    fix a b assume ab: "a \<in> set xs" "b \<in> set xs" "k a = k b"
    from some[OF ab(1)] some[OF ab(2)] ab(3) have "price a = price b"
      by (auto simp: k_def toNumber_def)
    with inj_price show "a = b"
      using ab(1,2) by (rule inj_onD)
  qed
  have A_set: "set A = set xs" and D_set: "set D = set xs"
    by (simp_all add: A_def D_def set_arraySort)
  have A_dist: "distinct A" and D_dist: "distinct D"
    by (simp_all add: A_def D_def distinct_arraySort dxs)
  have A_sorted: "sorted (map k A)"
    unfolding A_def k_def by (rule sorted_arraySort_on) (simp add: compare_price_asc num)
  have "sorted (map (\<lambda>c. - k c) D)"
    unfolding D_def k_def by (rule sorted_arraySort_on) (simp add: compare_price_desc num)
  then have "sorted_wrt (\<lambda>a b. k b \<le> k a) D"
    by (simp add: sorted_map)
  then have D_sorted: "sorted (map k (rev D))"
    by (simp add: sorted_map sorted_wrt_rev)
  have kA: "distinct (map k A)"
    using inj A_dist by (simp add: distinct_map A_set)
  have kD: "distinct (map k (rev D))"
    using inj D_dist by (simp add: distinct_map D_set)
  have "set (map k A) = set (map k (rev D))"
    by (simp add: A_set D_set)
  with A_sorted kA D_sorted kD have "map k A = map k (rev D)"
    by (rule sorted_distinct_set_unique)
  moreover have "inj_on k (set A \<union> set (rev D))"
    using inj by (simp add: A_set D_set)
  ultimately have rev: "A = rev D"
    by (simp add: inj_on_map_eq_map)
  have "sorted_wrt (<) (map k A)"
    using A_sorted kA by (simp add: strict_sorted_iff)
  then have "sorted_wrt (\<lambda>a b. k a < k b) A"
    by (simp add: sorted_wrt_map)
  moreover have "mset A = mset xs"
    by (simp add: A_def mset_arraySort)
  ultimately show ?thesis
    using rev by (simp add: listAll_sorted_by A_def D_def xs_def k_def)
qed

theorem price_sort_reversed_witness:
  "map price (cars exampleCatalog) = [Some 30000, Some 10000] \<and>
   numericPrice firstCar \<and> numericPrice secondCar \<and>
   listAll exampleCatalog (noParams\<lparr>q_sortBy := Some ''price'', q_sortOrder := Some ''asc''\<rparr>) =
   rev (listAll exampleCatalog (noParams\<lparr>q_sortBy := Some ''price'', q_sortOrder := Some ''desc''\<rparr>))"
proof -
  have d: "distinct (map price (cars exampleCatalog))"
    by (simp add: exampleCatalog_def firstCar_def secondCar_def)
  have n: "\<forall>c\<in>set (cars exampleCatalog). numericPrice c"
    by (simp add: exampleCatalog_def numericPrice_examples)
  have "map price (cars exampleCatalog) = [Some 30000, Some 10000]"
    by (simp add: exampleCatalog_def firstCar_def secondCar_def)
  with price_sort_reversed[OF d n, of noParams] numericPrice_examples show ?thesis
    by blast
qed

text \<open>
  The claim as first stated, for every catalog with pairwise distinct prices, fails in
  two ways. The sort compares \<^verbatim>\<open>parseInt(price)\<close>: the price \<open>10^21\<close> is written
  \<^verbatim>\<open>1e+21\<close> and read back as 1, so the ascending order puts that listing before one at
  10000. And a price that POST stored as \<^verbatim>\<open>null\<close> is read as \<^verbatim>\<open>NaN\<close>, every comparison
  with it fails, and both orders give one and the same sequence of the two listings,
  which is not its own reverse.
\<close>

theorem price_sort_counterexample:
  "distinct (map price (cars costlyCatalog)) \<and>
   price costlyCar = Some 1000000000000000000000 \<and> isDouble 1000000000000000000000 \<and>
   price secondCar = Some 10000 \<and>
   listAll costlyCatalog (noParams\<lparr>q_sortBy := Some ''price'', q_sortOrder := Some ''asc''\<rparr>) =
     [costlyCar, secondCar] \<and>
   distinct (map price (cars unpricedCatalog)) \<and>
   listAll unpricedCatalog (noParams\<lparr>q_sortBy := Some ''price'', q_sortOrder := Some ''asc''\<rparr>) =
   listAll unpricedCatalog (noParams\<lparr>q_sortBy := Some ''price'', q_sortOrder := Some ''desc''\<rparr>) \<and>
   length (listAll unpricedCatalog (noParams\<lparr>q_sortBy := Some ''price'', q_sortOrder := Some ''asc''\<rparr>)) = 2 \<and>
   distinct (listAll unpricedCatalog (noParams\<lparr>q_sortBy := Some ''price'', q_sortOrder := Some ''asc''\<rparr>))"
proof (intro conjI)
  show "distinct (map price (cars costlyCatalog))"
    by (simp add: costlyCatalog_def costlyCar_def secondCar_def)
  show "price costlyCar = Some 1000000000000000000000"
    by (simp add: costlyCar_def)
  show "isDouble 1000000000000000000000"
    by (rule isDouble_10_21)
  show "price secondCar = Some 10000"
    by (simp add: secondCar_def)
  show "listAll costlyCatalog (noParams\<lparr>q_sortBy := Some ''price'', q_sortOrder := Some ''asc''\<rparr>) =
     [costlyCar, secondCar]"
    by (rule costly_sorted)
  show "distinct (map price (cars unpricedCatalog))"
    by (simp add: unpricedCatalog_def unpricedCar_def secondCar_def)
  show "listAll unpricedCatalog (noParams\<lparr>q_sortBy := Some ''price'', q_sortOrder := Some ''asc''\<rparr>) =
   listAll unpricedCatalog (noParams\<lparr>q_sortBy := Some ''price'', q_sortOrder := Some ''desc''\<rparr>)"
    by (rule unpriced_sorted(1))
  show "length (listAll unpricedCatalog (noParams\<lparr>q_sortBy := Some ''price'', q_sortOrder := Some ''asc''\<rparr>)) = 2"
    by (rule unpriced_sorted(2))
  show "distinct (listAll unpricedCatalog (noParams\<lparr>q_sortBy := Some ''price'', q_sortOrder := Some ''asc''\<rparr>))"
    by (rule unpriced_sorted(3))
qed

text \<open>
  Claim C10. Whatever the catalog and the query parameters, every listing that
  \<open>listAll\<close> returns is a listing of the catalog, no listing occurs more often in the
  result than in the catalog, and the result is no longer than the catalog.
\<close>

theorem listAll_no_fabrication:
  "set (listAll data q) \<subseteq> set (cars data) \<and>
   (\<forall>c. count_list (listAll data q) c \<le> count_list (cars data) c) \<and>
   length (listAll data q) \<le> length (cars data)"
proof (intro conjI allI)
  show "set (listAll data q) \<subseteq> set (cars data)"
    using set_mset_mono[OF listAll_mset[of data q]] by simp
  show "count_list (listAll data q) c \<le> count_list (cars data) c" for c
    using mset_subset_eq_count[OF listAll_mset[of data q], of c] by (simp add: count_mset)
  show "length (listAll data q) \<le> length (cars data)"
    using size_mset_mono[OF listAll_mset[of data q]] by simp
qed

theorem listAll_no_fabrication_witness:
  "set (listAll exampleCatalog (noParams\<lparr>q_search := Some ''bmw''\<rparr>)) \<subseteq> {firstCar, secondCar} \<and>
   length (listAll exampleCatalog (noParams\<lparr>q_search := Some ''bmw''\<rparr>)) \<le> 2"
proof -
  have "set (cars exampleCatalog) = {firstCar, secondCar}" and "length (cars exampleCatalog) = 2"
    by (simp_all add: exampleCatalog_def)
  with listAll_no_fabrication[of exampleCatalog "noParams\<lparr>q_search := Some ''bmw''\<rparr>"]
  show ?thesis
    by (simp only: simp_thms)
qed

section \<open>Distinct makes\<close>

lemma set_foldl_setAdd: "set (foldl setAdd acc xs) = set acc \<union> set xs"
  by (induction xs arbitrary: acc) (auto simp: setAdd_def)

lemma distinct_foldl_setAdd: "distinct acc \<Longrightarrow> distinct (foldl setAdd acc xs)"
  by (induction xs arbitrary: acc) (auto simp: setAdd_def)

lemma defaultCompare_pos: "(defaultCompare x y > 0) = (y < x)"
  by (auto simp: defaultCompare_def)

text \<open>
  Claim C8. \<open>distinctMakes\<close> has no duplicates, holds exactly the \<^verbatim>\<open>make\<close> values of
  the catalog as they are stored, and is sorted in the lexicographic order of strings.
\<close>

theorem distinctMakes_correct:
  "distinct (distinctMakes data) \<and>
   set (distinctMakes data) = car_make ` set (cars data) \<and>
   sorted (distinctMakes data)"
proof (intro conjI)
  show "distinct (distinctMakes data)"
    by (simp add: distinctMakes_def distinct_arraySort newSet_def distinct_foldl_setAdd)
  show "set (distinctMakes data) = car_make ` set (cars data)"
    by (simp add: distinctMakes_def set_arraySort newSet_def set_foldl_setAdd)
  show "sorted (distinctMakes data)"
    using sorted_arraySort_on[where k = "\<lambda>s::string. s" and f = defaultCompare, OF defaultCompare_pos]
    by (simp add: distinctMakes_def)
qed

theorem distinctMakes_correct_witness:
  "distinct (distinctMakes (exampleCatalog\<lparr>cars := [firstCar, secondCar, firstCar]\<rparr>)) \<and>
   set (distinctMakes (exampleCatalog\<lparr>cars := [firstCar, secondCar, firstCar]\<rparr>)) = {''BMW'', ''Audi''} \<and>
   sorted (distinctMakes (exampleCatalog\<lparr>cars := [firstCar, secondCar, firstCar]\<rparr>))"
proof -
  have "car_make ` set (cars (exampleCatalog\<lparr>cars := [firstCar, secondCar, firstCar]\<rparr>)) = {''BMW'', ''Audi''}"
    by (auto simp: firstCar_def secondCar_def)
  with distinctMakes_correct[of "exampleCatalog\<lparr>cars := [firstCar, secondCar, firstCar]\<rparr>"]
  show ?thesis
    by (simp only: simp_thms)
qed

section \<open>Creating a listing\<close>

lemma createListing_invalid:
  "\<not> (truthy (b_make b) \<and> truthy (b_model b) \<and> truthy (b_year b) \<and> truthy (b_price b) \<and>
      truthy (b_location b) \<and> truthy (b_condition b) \<and> truthy (b_image b)) \<Longrightarrow>
   createListing data b now writable = Inl (HttpError 400 missingFields)"
  unfolding createListing_def by (simp only: de_Morgan_conj if_True)

lemma createListing_Inr:
  assumes "createListing data b now writable = Inr (c, data')"
  shows "newCar data b now = Some c" and "data' = data \<lparr> cars := cars data @ [c], nextId := increment (nextId data) \<rparr>"
    and "writable"
  using assms unfolding createListing_def
  by (auto simp: Let_def split: if_splits option.splits)

lemma newCar_id: "newCar data b now = Some c \<Longrightarrow> car_id c = nextId data"
  unfolding newCar_def by (auto split: Option.bind_splits)

lemma newCar_strings:
  assumes "b_make b = Some (JStr mk)" "b_model b = Some (JStr md)"
    "b_location b = Some (JStr lo)" "b_condition b = Some (JStr co)" "b_image b = Some (JStr im)"
    "b_year b = Some y" "toString y = Some ys" "b_price b = Some p" "toString p = Some ps"
  shows "newCar data b now = Some \<lparr> car_id = nextId data, car_make = trim mk, model = trim md,
           year = jsonNumber (parseInt ys), price = jsonNumber (parseInt ps), location = trim lo, condition = trim co,
           image = trim im, createdAt = now \<rparr>"
  by (simp add: newCar_def assms parseIntValue_def)

lemma newCar_exampleBody:
  "newCar data exampleBody now =
   Some \<lparr> car_id = nextId data, car_make = ''Kia'', model = ''Rio'', year = Some 2020,
     price = Some 5000, location = ''LA'', condition = ''new'', image = ''/uploads/rio.png'',
     createdAt = now \<rparr>"
  by (simp add: newCar_def exampleBody_def parseIntValue_def parseInt_number_2020
        parseInt_examples trim_examples jsonNumber_def)

lemma createListing_exampleBody:
  "createListing data exampleBody now True =
   Inr (\<lparr> car_id = nextId data, car_make = ''Kia'', model = ''Rio'', year = Some 2020,
          price = Some 5000, location = ''LA'', condition = ''new'', image = ''/uploads/rio.png'',
          createdAt = now \<rparr>,
        data \<lparr> cars := cars data @ [\<lparr> car_id = nextId data, car_make = ''Kia'', model = ''Rio'',
          year = Some 2020, price = Some 5000, location = ''LA'', condition = ''new'',
          image = ''/uploads/rio.png'', createdAt = now \<rparr>], nextId := increment (nextId data) \<rparr>)"
  by (simp add: createListing_def newCar_exampleBody) (simp add: exampleBody_def)

lemma counterInvariant_example: "counterInvariant exampleCatalog"
  by (simp add: counterInvariant_def exampleCatalog_def firstCar_def secondCar_def)

lemma createListing_step:
  assumes inv: "counterInvariant data"
    and lo: "- (2 ^ 53) \<le> nextId data" and hi: "nextId data < 2 ^ 53"
    and ok: "createListing data b now writable = Inr (c, data')"
  shows "car_id c = nextId data" and "nextId data' = nextId data + 1"
    and "cars data' = cars data @ [c]" and "counterInvariant data'"
    and "car_id c \<notin> car_id ` set (cars data)"
proof -
  note r = createListing_Inr[OF ok]
  note inc = increment_small[OF lo hi]
  show id: "car_id c = nextId data"
    by (rule newCar_id[OF r(1)])
  show "nextId data' = nextId data + 1" and "cars data' = cars data @ [c]"
    by (simp_all add: r(2) inc)
  show "counterInvariant data'"
    using inv id by (auto simp: counterInvariant_def r(2) inc)
  show "car_id c \<notin> car_id ` set (cars data)"
    using inv id by (auto simp: counterInvariant_def)
qed

lemma postAll_ids:
  "counterInvariant data \<Longrightarrow> - (2 ^ 53) \<le> nextId data \<Longrightarrow>
   nextId data + int (length requests) \<le> 2 ^ 53 \<Longrightarrow>
   postAll data requests = (created, final) \<Longrightarrow>
   sorted_wrt (<) (map car_id created) \<and> (\<forall>c\<in>set created. nextId data \<le> car_id c) \<and>
   counterInvariant final \<and> nextId final = nextId data + int (length created)"
proof (induction requests arbitrary: data created final)
  case Nil
  then show ?case by simp
next
  case (Cons r requests)
  obtain b now writable where r: "r = (b, now, writable)"
    by (cases r) auto
  from Cons.prems(3) have hi: "nextId data < 2 ^ 53"
    and rest_fits: "nextId data + int (length requests) \<le> 2 ^ 53"
    by simp_all
  show ?case
  proof (cases "createListing data b now writable")
    case (Inl e)
    with Cons.prems(4) r have "postAll data requests = (created, final)" by simp
    from Cons.IH[OF Cons.prems(1,2) rest_fits this] show ?thesis .
  next
    case (Inr res)
    obtain c data' where res: "res = (c, data')" by (cases res) auto
    obtain created' final' where rest: "postAll data' requests = (created', final')"
      by (cases "postAll data' requests") auto
    from Cons.prems(4) r Inr res rest have eq: "created = c # created'" "final = final'"
      by simp_all
    have ok: "createListing data b now writable = Inr (c, data')"
      using Inr res by simp
    note step = createListing_step[OF Cons.prems(1,2) hi ok]
    have lo': "- (2 ^ 53) \<le> nextId data'"
      using step(2) Cons.prems(2) by simp
    have fits': "nextId data' + int (length requests) \<le> 2 ^ 53"
      using step(2) Cons.prems(3) by simp
    from Cons.IH[OF step(4) lo' fits' rest]
    have ih: "sorted_wrt (<) (map car_id created')" "\<forall>c\<in>set created'. nextId data' \<le> car_id c"
      "counterInvariant final'" "nextId final' = nextId data' + int (length created')"
      by simp_all
    show ?thesis
      using ih step(1,2) by (auto simp: eq)
  qed
qed

text \<open>
  Claim C1, as amended. The guard of the POST handler tests all seven fields, \<^verbatim>\<open>image\<close>
  included: when any of make, model, year, price, location, condition or image is missing
  or falsy, the answer is the 400 validation error, whose message names exactly make,
  model, year, price, location, condition. When the five text fields are non-empty
  strings, year and price are truthy values that convert to a string, and the document
  can be written, the listing is created.
\<close>

theorem createListing_validation:
  "(\<not> truthy (b_make b) \<or> \<not> truthy (b_model b) \<or> \<not> truthy (b_year b) \<or> \<not> truthy (b_price b) \<or>
    \<not> truthy (b_location b) \<or> \<not> truthy (b_condition b) \<or> \<not> truthy (b_image b) \<longrightarrow>
      createListing data b now writable =
      Inl (HttpError 400 ''Missing required fields: make, model, year, price, location, condition'')) \<and>
   (b_make b = Some (JStr mk) \<and> mk \<noteq> [] \<and> b_model b = Some (JStr md) \<and> md \<noteq> [] \<and>
    b_location b = Some (JStr lo) \<and> lo \<noteq> [] \<and> b_condition b = Some (JStr co) \<and> co \<noteq> [] \<and>
    b_image b = Some (JStr im) \<and> im \<noteq> [] \<and>
    b_year b = Some y \<and> truthy (Some y) \<and> toString y = Some ys \<and>
    b_price b = Some p \<and> truthy (Some p) \<and> toString p = Some ps \<and> writable \<longrightarrow>
      (\<exists>c. createListing data b now writable =
              Inr (c, data \<lparr> cars := cars data @ [c], nextId := increment (nextId data) \<rparr>) \<and>
           c = \<lparr> car_id = nextId data, car_make = trim mk, model = trim md,
                 year = jsonNumber (parseInt ys), price = jsonNumber (parseInt ps), location = trim lo,
                 condition = trim co, image = trim im, createdAt = now \<rparr>))"
proof (intro conjI impI)
  assume "\<not> truthy (b_make b) \<or> \<not> truthy (b_model b) \<or> \<not> truthy (b_year b) \<or>
    \<not> truthy (b_price b) \<or> \<not> truthy (b_location b) \<or> \<not> truthy (b_condition b) \<or>
    \<not> truthy (b_image b)"
  then have "createListing data b now writable = Inl (HttpError 400 missingFields)"
    by (intro createListing_invalid) blast
  then show "createListing data b now writable =
      Inl (HttpError 400 ''Missing required fields: make, model, year, price, location, condition'')"
    by (simp add: missingFields_def)
next
  assume h: "b_make b = Some (JStr mk) \<and> mk \<noteq> [] \<and> b_model b = Some (JStr md) \<and> md \<noteq> [] \<and>
    b_location b = Some (JStr lo) \<and> lo \<noteq> [] \<and> b_condition b = Some (JStr co) \<and> co \<noteq> [] \<and>
    b_image b = Some (JStr im) \<and> im \<noteq> [] \<and>
    b_year b = Some y \<and> truthy (Some y) \<and> toString y = Some ys \<and>
    b_price b = Some p \<and> truthy (Some p) \<and> toString p = Some ps \<and> writable"
  then have "newCar data b now = Some \<lparr> car_id = nextId data, car_make = trim mk, model = trim md,
           year = jsonNumber (parseInt ys), price = jsonNumber (parseInt ps), location = trim lo, condition = trim co,
           image = trim im, createdAt = now \<rparr>"
    by (intro newCar_strings[where y = y and p = p]) blast+
  with h show "\<exists>c. createListing data b now writable =
              Inr (c, data \<lparr> cars := cars data @ [c], nextId := increment (nextId data) \<rparr>) \<and>
           c = \<lparr> car_id = nextId data, car_make = trim mk, model = trim md,
                 year = jsonNumber (parseInt ys), price = jsonNumber (parseInt ps), location = trim lo,
                 condition = trim co, image = trim im, createdAt = now \<rparr>"
    by (simp add: createListing_def)
qed

theorem createListing_validation_witness:
  "createListing exampleCatalog (exampleBody\<lparr>b_price := None\<rparr>) ''2025-01-01T00:00:00.000Z'' True =
     Inl (HttpError 400 ''Missing required fields: make, model, year, price, location, condition'') \<and>
   createListing exampleCatalog exampleBody ''2025-01-01T00:00:00.000Z'' True =
     Inr (\<lparr> car_id = 3, car_make = ''Kia'', model = ''Rio'', year = Some 2020, price = Some 5000,
            location = ''LA'', condition = ''new'', image = ''/uploads/rio.png'',
            createdAt = ''2025-01-01T00:00:00.000Z'' \<rparr>,
          \<lparr> cars = [firstCar, secondCar,
              \<lparr> car_id = 3, car_make = ''Kia'', model = ''Rio'', year = Some 2020, price = Some 5000,
                location = ''LA'', condition = ''new'', image = ''/uploads/rio.png'',
                createdAt = ''2025-01-01T00:00:00.000Z'' \<rparr>],
            nextId = 4 \<rparr>)"
proof
  have "\<not> truthy (b_price (exampleBody\<lparr>b_price := None\<rparr>))" by simp
  with createListing_validation[where b = "exampleBody\<lparr>b_price := None\<rparr>" and data = exampleCatalog
      and now = "''2025-01-01T00:00:00.000Z''" and writable = True]
  show "createListing exampleCatalog (exampleBody\<lparr>b_price := None\<rparr>) ''2025-01-01T00:00:00.000Z'' True =
     Inl (HttpError 400 ''Missing required fields: make, model, year, price, location, condition'')"
    by blast
next
  have "toString (JNum 2020) = Some (numberToString (toDouble 2020))" and "toString (JStr ''5000'') = Some ''5000''"
    by simp_all
  with createListing_validation[where b = exampleBody and data = exampleCatalog
      and now = "''2025-01-01T00:00:00.000Z''" and writable = True and mk = "'' Kia ''"
      and md = "''Rio''" and lo = "''LA''" and co = "''new''" and im = "''/uploads/rio.png''"
      and y = "JNum 2020" and ys = "numberToString (toDouble 2020)" and p = "JStr ''5000''" and ps = "''5000''"]
  have "createListing exampleCatalog exampleBody ''2025-01-01T00:00:00.000Z'' True =
     Inr (\<lparr> car_id = nextId exampleCatalog, car_make = trim '' Kia '', model = trim ''Rio'',
             year = jsonNumber (parseInt (numberToString (toDouble 2020))), price = jsonNumber (parseInt ''5000''),
             location = trim ''LA'', condition = trim ''new'', image = trim ''/uploads/rio.png'',
             createdAt = ''2025-01-01T00:00:00.000Z'' \<rparr>,
          exampleCatalog \<lparr> cars := cars exampleCatalog @
            [\<lparr> car_id = nextId exampleCatalog, car_make = trim '' Kia '', model = trim ''Rio'',
             year = jsonNumber (parseInt (numberToString (toDouble 2020))), price = jsonNumber (parseInt ''5000''),
             location = trim ''LA'', condition = trim ''new'', image = trim ''/uploads/rio.png'',
             createdAt = ''2025-01-01T00:00:00.000Z'' \<rparr>],
            nextId := increment (nextId exampleCatalog) \<rparr>)"
    by (simp add: exampleBody_def)
  then show "createListing exampleCatalog exampleBody ''2025-01-01T00:00:00.000Z'' True =
     Inr (\<lparr> car_id = 3, car_make = ''Kia'', model = ''Rio'', year = Some 2020, price = Some 5000,
            location = ''LA'', condition = ''new'', image = ''/uploads/rio.png'',
            createdAt = ''2025-01-01T00:00:00.000Z'' \<rparr>,
          \<lparr> cars = [firstCar, secondCar,
              \<lparr> car_id = 3, car_make = ''Kia'', model = ''Rio'', year = Some 2020, price = Some 5000,
                location = ''LA'', condition = ''new'', image = ''/uploads/rio.png'',
                createdAt = ''2025-01-01T00:00:00.000Z'' \<rparr>],
            nextId = 4 \<rparr>)"
    by (simp add: parseInt_number_2020 parseInt_examples trim_examples exampleCatalog_def
          jsonNumber_def increment_small)
qed

text \<open>
  The claim as first stated, that a request with the six named fields and no image
  succeeds, fails on the example body without its image: the answer is the 400
  validation error.
\<close>

theorem create_without_image_counterexample:
  "truthy (b_make (exampleBody\<lparr>b_image := None\<rparr>)) \<and>
   truthy (b_model (exampleBody\<lparr>b_image := None\<rparr>)) \<and>
   truthy (b_year (exampleBody\<lparr>b_image := None\<rparr>)) \<and>
   truthy (b_price (exampleBody\<lparr>b_image := None\<rparr>)) \<and>
   truthy (b_location (exampleBody\<lparr>b_image := None\<rparr>)) \<and>
   truthy (b_condition (exampleBody\<lparr>b_image := None\<rparr>)) \<and>
   b_image (exampleBody\<lparr>b_image := None\<rparr>) = None \<and>
   createListing exampleCatalog (exampleBody\<lparr>b_image := None\<rparr>) ''2025-01-01T00:00:00.000Z'' True =
     Inl (HttpError 400 ''Missing required fields: make, model, year, price, location, condition'')"
  by (simp add: createListing_def exampleBody_def missingFields_def)

text \<open>
  Claim C9. A request whose \<^verbatim>\<open>year\<close> or \<^verbatim>\<open>price\<close> is present but is the number 0, the
  empty string, \<^verbatim>\<open>null\<close> or \<^verbatim>\<open>false\<close> is answered with the 400 validation error for
  missing fields: the handler tests truthiness, not presence.
\<close>

theorem falsy_year_or_price_rejected:
  assumes "b_year b = Some v \<or> b_price b = Some v"
    and "v = JNum 0 \<or> v = JStr [] \<or> v = JNull \<or> v = JBool False"
  shows "createListing data b now writable =
         Inl (HttpError 400 ''Missing required fields: make, model, year, price, location, condition'')"
proof -
  from assms(2) have "\<not> truthy (Some v)" by auto
  with assms(1) have "\<not> truthy (b_year b) \<or> \<not> truthy (b_price b)" by auto
  then have "createListing data b now writable = Inl (HttpError 400 missingFields)"
    by (intro createListing_invalid) blast
  then show ?thesis by (simp add: missingFields_def)
qed

theorem falsy_year_or_price_rejected_witness:
  "b_year (exampleBody\<lparr>b_year := Some (JNum 0)\<rparr>) = Some (JNum 0) \<and>
   createListing exampleCatalog (exampleBody\<lparr>b_year := Some (JNum 0)\<rparr>) ''2025-01-01T00:00:00.000Z'' True =
     Inl (HttpError 400 ''Missing required fields: make, model, year, price, location, condition'') \<and>
   createListing exampleCatalog (exampleBody\<lparr>b_price := Some (JStr [])\<rparr>) ''2025-01-01T00:00:00.000Z'' True =
     Inl (HttpError 400 ''Missing required fields: make, model, year, price, location, condition'')"
proof -
  have "createListing exampleCatalog (exampleBody\<lparr>b_year := Some (JNum 0)\<rparr>) ''2025-01-01T00:00:00.000Z'' True =
     Inl (HttpError 400 ''Missing required fields: make, model, year, price, location, condition'')"
    by (rule falsy_year_or_price_rejected[where v = "JNum 0"]) simp_all
  moreover have "createListing exampleCatalog (exampleBody\<lparr>b_price := Some (JStr [])\<rparr>) ''2025-01-01T00:00:00.000Z'' True =
     Inl (HttpError 400 ''Missing required fields: make, model, year, price, location, condition'')"
    by (rule falsy_year_or_price_rejected[where v = "JStr []"]) simp_all
  ultimately show ?thesis by simp
qed

text \<open>
  Claim C2, as amended. On a catalog that satisfies the counter invariant and whose
  counter \<open>n\<close> has \<open>-2^53 \<le> n < 2^53\<close>, every successful \<open>createListing\<close> gives the
  new listing the current counter as its identifier, appends it, raises the counter by
  exactly 1 and keeps the invariant, and the new identifier is none of those present.
  Hence over any sequence of requests handled one after the other that cannot take the
  counter beyond \<open>2^53\<close>, the identifiers of the listings created are strictly
  increasing, none of them was in the catalog before, the invariant holds at the end and
  the counter has grown by the number of listings created.
\<close>

theorem createListing_counter:
  assumes "counterInvariant data" and "- (2 ^ 53) \<le> nextId data" and "nextId data < 2 ^ 53"
  shows "(\<forall>b now writable c data'. createListing data b now writable = Inr (c, data') \<longrightarrow>
            car_id c = nextId data \<and> nextId data' = nextId data + 1 \<and>
            cars data' = cars data @ [c] \<and> counterInvariant data' \<and>
            car_id c \<notin> car_id ` set (cars data)) \<and>
         (\<forall>requests created final.
            postAll data requests = (created, final) \<and>
            nextId data + int (length requests) \<le> 2 ^ 53 \<longrightarrow>
            sorted_wrt (<) (map car_id created) \<and>
            (\<forall>c\<in>set created. car_id c \<notin> car_id ` set (cars data)) \<and>
            counterInvariant final \<and> nextId final = nextId data + int (length created))"
proof (intro conjI allI impI)
  fix b now writable c data'
  assume ok: "createListing data b now writable = Inr (c, data')"
  note step = createListing_step[OF assms ok]
  show "car_id c = nextId data" by (rule step(1))
  show "nextId data' = nextId data + 1" by (rule step(2))
  show "cars data' = cars data @ [c]" by (rule step(3))
  show "counterInvariant data'" by (rule step(4))
  show "car_id c \<notin> car_id ` set (cars data)" by (rule step(5))
next
  fix requests created final
  assume "postAll data requests = (created, final) \<and>
    nextId data + int (length requests) \<le> 2 ^ 53"
  then have run: "postAll data requests = (created, final)"
    and fits: "nextId data + int (length requests) \<le> 2 ^ 53"
    by simp_all
  note ids = postAll_ids[OF assms(1,2) fits run]
  show "sorted_wrt (<) (map car_id created)" using ids by simp
  show "counterInvariant final" using ids by simp
  show "nextId final = nextId data + int (length created)" using ids by simp
  show "\<forall>c\<in>set created. car_id c \<notin> car_id ` set (cars data)"
    using ids assms(1) by (fastforce simp: counterInvariant_def)
qed

theorem createListing_counter_witness:
  "counterInvariant exampleCatalog \<and> - (2 ^ 53) \<le> nextId exampleCatalog \<and>
   nextId exampleCatalog < 2 ^ 53 \<and>
   createListing exampleCatalog exampleBody ''2025-01-01T00:00:00.000Z'' True =
     Inr (thirdCar, exampleCatalog\<lparr>cars := cars exampleCatalog @ [thirdCar], nextId := 4\<rparr>) \<and>
   car_id thirdCar = nextId exampleCatalog \<and>
   counterInvariant (exampleCatalog\<lparr>cars := cars exampleCatalog @ [thirdCar], nextId := 4\<rparr>) \<and>
   car_id thirdCar \<notin> car_id ` set (cars exampleCatalog) \<and>
   sorted_wrt (<) (map car_id
     (fst (postAll exampleCatalog
        [(exampleBody, ''2025-01-01T00:00:00.000Z'', True),
         (exampleBody\<lparr>b_image := None\<rparr>, ''2025-01-02T00:00:00.000Z'', True),
         (exampleBody, ''2025-01-03T00:00:00.000Z'', True)])))"
proof -
  have lo: "- (2 ^ 53) \<le> nextId exampleCatalog" and hi: "nextId exampleCatalog < 2 ^ 53"
    by (simp_all add: exampleCatalog_def)
  have ok: "createListing exampleCatalog exampleBody ''2025-01-01T00:00:00.000Z'' True =
     Inr (thirdCar, exampleCatalog\<lparr>cars := cars exampleCatalog @ [thirdCar], nextId := 4\<rparr>)"
    by (simp add: createListing_exampleBody thirdCar_def)
       (simp add: exampleCatalog_def increment_small)
  have fits: "nextId exampleCatalog + int (length
        [(exampleBody, ''2025-01-01T00:00:00.000Z'', True),
         (exampleBody\<lparr>b_image := None\<rparr>, ''2025-01-02T00:00:00.000Z'', True),
         (exampleBody, ''2025-01-03T00:00:00.000Z'', True)]) \<le> 2 ^ 53"
    by (simp add: exampleCatalog_def)
  have run: "postAll exampleCatalog
        [(exampleBody, ''2025-01-01T00:00:00.000Z'', True),
         (exampleBody\<lparr>b_image := None\<rparr>, ''2025-01-02T00:00:00.000Z'', True),
         (exampleBody, ''2025-01-03T00:00:00.000Z'', True)] =
      (fst (postAll exampleCatalog
        [(exampleBody, ''2025-01-01T00:00:00.000Z'', True),
         (exampleBody\<lparr>b_image := None\<rparr>, ''2025-01-02T00:00:00.000Z'', True),
         (exampleBody, ''2025-01-03T00:00:00.000Z'', True)]),
       snd (postAll exampleCatalog
        [(exampleBody, ''2025-01-01T00:00:00.000Z'', True),
         (exampleBody\<lparr>b_image := None\<rparr>, ''2025-01-02T00:00:00.000Z'', True),
         (exampleBody, ''2025-01-03T00:00:00.000Z'', True)]))"
    by (rule surjective_pairing)
  from createListing_counter[OF counterInvariant_example lo hi] ok run fits
    counterInvariant_example lo hi
  show ?thesis
    by blast
qed

text \<open>
  The claim as first stated, for every catalog that satisfies the invariant, fails at
  the counter \<open>2^53\<close>: the sum \<open>2^53 + 1\<close> is no double and rounds back to \<open>2^53\<close>.
  The listing is created with the identifier \<open>2^53\<close>, the counter stays where it was,
  the invariant is lost, and the next listing gets the same identifier.
\<close>

theorem counter_stuck_counterexample:
  "counterInvariant fullCatalog \<and>
   createListing fullCatalog exampleBody ''2025-01-01T00:00:00.000Z'' True =
     Inr (thirdCar\<lparr>car_id := 9007199254740992\<rparr>,
          fullCatalog\<lparr>cars := [firstCar, thirdCar\<lparr>car_id := 9007199254740992\<rparr>]\<rparr>) \<and>
   nextId (fullCatalog\<lparr>cars := [firstCar, thirdCar\<lparr>car_id := 9007199254740992\<rparr>]\<rparr>) =
     nextId fullCatalog \<and>
   \<not> counterInvariant (fullCatalog\<lparr>cars := [firstCar, thirdCar\<lparr>car_id := 9007199254740992\<rparr>]\<rparr>) \<and>
   createListing (fullCatalog\<lparr>cars := [firstCar, thirdCar\<lparr>car_id := 9007199254740992\<rparr>]\<rparr>)
       exampleBody ''2025-01-02T00:00:00.000Z'' True =
     Inr (thirdCar\<lparr>car_id := 9007199254740992, createdAt := ''2025-01-02T00:00:00.000Z''\<rparr>,
          fullCatalog\<lparr>cars := [firstCar, thirdCar\<lparr>car_id := 9007199254740992\<rparr>,
            thirdCar\<lparr>car_id := 9007199254740992, createdAt := ''2025-01-02T00:00:00.000Z''\<rparr>]\<rparr>)"
proof (intro conjI)
  show "counterInvariant fullCatalog"
    by (simp add: counterInvariant_def fullCatalog_def firstCar_def)
  show "createListing fullCatalog exampleBody ''2025-01-01T00:00:00.000Z'' True =
     Inr (thirdCar\<lparr>car_id := 9007199254740992\<rparr>,
          fullCatalog\<lparr>cars := [firstCar, thirdCar\<lparr>car_id := 9007199254740992\<rparr>]\<rparr>)"
    by (simp add: createListing_exampleBody thirdCar_def)
       (simp add: fullCatalog_def increment_2_53)
  show "nextId (fullCatalog\<lparr>cars := [firstCar, thirdCar\<lparr>car_id := 9007199254740992\<rparr>]\<rparr>) =
     nextId fullCatalog"
    by simp
  show "\<not> counterInvariant (fullCatalog\<lparr>cars := [firstCar, thirdCar\<lparr>car_id := 9007199254740992\<rparr>]\<rparr>)"
    by (simp add: counterInvariant_def fullCatalog_def thirdCar_def)
  show "createListing (fullCatalog\<lparr>cars := [firstCar, thirdCar\<lparr>car_id := 9007199254740992\<rparr>]\<rparr>)
       exampleBody ''2025-01-02T00:00:00.000Z'' True =
     Inr (thirdCar\<lparr>car_id := 9007199254740992, createdAt := ''2025-01-02T00:00:00.000Z''\<rparr>,
          fullCatalog\<lparr>cars := [firstCar, thirdCar\<lparr>car_id := 9007199254740992\<rparr>,
            thirdCar\<lparr>car_id := 9007199254740992, createdAt := ''2025-01-02T00:00:00.000Z''\<rparr>]\<rparr>)"
    by (simp add: createListing_exampleBody thirdCar_def)
       (simp add: fullCatalog_def increment_2_53)
qed

section \<open>Reading the store\<close>

lemma emptyDocument_encodes: "emptyDocument = encodeCatalog \<lparr> cars = [], nextId = 1 \<rparr>"
  by (simp add: emptyDocument_def encodeCatalog_def)

text \<open>
  Claim C7, as amended. When the data file is absent, cannot be read, or holds text that
  \<^verbatim>\<open>JSON.parse\<close> rejects, \<open>readData\<close> returns the empty catalog with counter 1;
  \<open>readData\<close> has no error result. Text that \<^verbatim>\<open>JSON.parse\<close> accepts is returned as
  the value it parses to, whether that value is a catalog or not.
\<close>

theorem readData_fallback:
  "(file = Absent \<or> file = Unreadable \<or> (\<exists>text. file = Content text \<and> JSON_parse text = None) \<longrightarrow>
      readData JSON_parse file = encodeCatalog \<lparr> cars = [], nextId = 1 \<rparr>) \<and>
   (\<forall>text v. file = Content text \<and> JSON_parse text = Some v \<longrightarrow> readData JSON_parse file = v)"
  by (auto simp: readData_def emptyDocument_encodes)

theorem readData_fallback_witness:
  "readData exampleParse Absent = encodeCatalog \<lparr> cars = [], nextId = 1 \<rparr> \<and>
   readData exampleParse Unreadable = encodeCatalog \<lparr> cars = [], nextId = 1 \<rparr> \<and>
   exampleParse ''{ cars: '' = None \<and>
   readData exampleParse (Content ''{ cars: '') = encodeCatalog \<lparr> cars = [], nextId = 1 \<rparr> \<and>
   exampleParse ''{\"cars\":[],\"nextId\":7}'' = Some (encodeCatalog \<lparr> cars = [], nextId = 7 \<rparr>) \<and>
   readData exampleParse (Content ''{\"cars\":[],\"nextId\":7}'') =
     encodeCatalog \<lparr> cars = [], nextId = 7 \<rparr>"
proof -
  have e: "exampleParse ''{ cars: '' = None"
    by (simp add: exampleParse_def)
  have p: "exampleParse ''{\"cars\":[],\"nextId\":7}'' = Some (encodeCatalog \<lparr> cars = [], nextId = 7 \<rparr>)"
    by (simp add: exampleParse_def encodeCatalog_def)
  have a: "readData exampleParse Absent = encodeCatalog \<lparr> cars = [], nextId = 1 \<rparr>"
    using readData_fallback[of Absent exampleParse] by blast
  have b: "readData exampleParse Unreadable = encodeCatalog \<lparr> cars = [], nextId = 1 \<rparr>"
    using readData_fallback[of Unreadable exampleParse] by blast
  have c: "readData exampleParse (Content ''{ cars: '') = encodeCatalog \<lparr> cars = [], nextId = 1 \<rparr>"
    using readData_fallback[of "Content ''{ cars: ''" exampleParse] e by blast
  have d: "readData exampleParse (Content ''{\"cars\":[],\"nextId\":7}'') =
     encodeCatalog \<lparr> cars = [], nextId = 7 \<rparr>"
    using readData_fallback[of "Content ''{\"cars\":[],\"nextId\":7}''" exampleParse] p by blast
  from a b e c p d show ?thesis
    by (intro conjI)
qed

text \<open>
  The claim as first stated, with a corrupt document among the cases that give the empty
  catalog, fails on a file that holds \<^verbatim>\<open>null\<close> or \<^verbatim>\<open>{}\<close>: \<open>readData\<close> returns that
  value, which is no catalog and not the empty one.
\<close>

theorem not_a_catalog_counterexample:
  "exampleParse ''null'' = Some JNull \<and>
   readData exampleParse (Content ''null'') = JNull \<and>
   readData exampleParse (Content ''null'') \<noteq> encodeCatalog \<lparr> cars = [], nextId = 1 \<rparr> \<and>
   exampleParse ''{}'' = Some (JObj []) \<and>
   readData exampleParse (Content ''{}'') = JObj [] \<and>
   readData exampleParse (Content ''{}'') \<noteq> encodeCatalog \<lparr> cars = [], nextId = 1 \<rparr>"
  by (simp add: readData_def exampleParse_def encodeCatalog_def)

end
